theory Spec2Isabelle
  imports Main "HOL-Library.Sublist" "HOL-Library.Multiset"
begin

section \<open>Values of the source language\<close>

text \<open>
  The profiles are what \<^verbatim>\<open>response.json()\<close> returns: JSON values. Numbers are the
  integers of the contact records (epoch seconds); floating point is outside the embedding.
  An object is the list of its items; a key is looked up with \<open>map_of\<close>.
  Strings are byte lists, as in HOL.
\<close>

datatype json =
    JNull
  | JBool bool
  | JInt int
  | JStr string
  | JArr "json list"
  | JObj "(string \<times> json) list"

datatype error = AttributeError | TypeError

fun bind_r :: "error + 'a \<Rightarrow> ('a \<Rightarrow> error + 'b) \<Rightarrow> error + 'b" where
  "bind_r (Inl e) f = Inl e"
| "bind_r (Inr x) f = f x"

text \<open>\<^verbatim>\<open>d.get(k, default)\<close>: only a dict has the method.\<close>

fun py_get :: "json \<Rightarrow> string \<Rightarrow> json \<Rightarrow> error + json" where
  "py_get (JObj kvs) k d = Inr (case map_of kvs k of Some v \<Rightarrow> v | None \<Rightarrow> d)"
| "py_get JNull k d = Inl AttributeError"
| "py_get (JBool b) k d = Inl AttributeError"
| "py_get (JInt n) k d = Inl AttributeError"
| "py_get (JStr s) k d = Inl AttributeError"
| "py_get (JArr xs) k d = Inl AttributeError"

text \<open>Truth value of a value in \<^verbatim>\<open>if v:\<close> and \<^verbatim>\<open>if not v:\<close>.\<close>

fun truthy :: "json \<Rightarrow> bool" where
  "truthy JNull = False"
| "truthy (JBool b) = b"
| "truthy (JInt n) = (n \<noteq> 0)"
| "truthy (JStr s) = (s \<noteq> [])"
| "truthy (JArr xs) = (xs \<noteq> [])"
| "truthy (JObj kvs) = (kvs \<noteq> [])"

text \<open>A list or a dict cannot be a dictionary key (TypeError: unhashable type).\<close>

fun hashable :: "json \<Rightarrow> bool" where
  "hashable (JArr xs) = False"
| "hashable (JObj kvs) = False"
| "hashable v = True"

text \<open>
  Two keys of a Python dict are the same key when they are equal and hash alike;
  among JSON scalars the only values of different type that are equal are
  \<^verbatim>\<open>True == 1\<close> and \<^verbatim>\<open>False == 0\<close>.
\<close>

fun key_norm :: "json \<Rightarrow> json" where
  "key_norm (JBool b) = JInt (if b then 1 else 0)"
| "key_norm v = v"

definition same_key :: "json \<Rightarrow> json \<Rightarrow> bool" where
  "same_key a b = (key_norm a = key_norm b)"

text \<open>\<^verbatim>\<open>v > t\<close> for an integer \<open>t\<close>: numbers and booleans compare, anything else raises.\<close>

fun py_gt :: "json \<Rightarrow> int \<Rightarrow> error + bool" where
  "py_gt (JInt n) t = Inr (n > t)"
| "py_gt (JBool b) t = Inr ((if b then 1 else 0) > t)"
| "py_gt JNull t = Inl TypeError"
| "py_gt (JStr s) t = Inl TypeError"
| "py_gt (JArr xs) t = Inl TypeError"
| "py_gt (JObj kvs) t = Inl TypeError"

text \<open>Iterating a value in a \<^verbatim>\<open>for\<close> or a generator: a list gives its elements, a string
  its characters, a dict its keys; nothing else is iterable.\<close>

fun py_iter :: "json \<Rightarrow> error + json list" where
  "py_iter (JArr xs) = Inr xs"
| "py_iter (JStr s) = Inr (map (\<lambda>c. JStr [c]) s)"
| "py_iter (JObj kvs) = Inr (map (\<lambda>kv. JStr (fst kv)) kvs)"
| "py_iter JNull = Inl TypeError"
| "py_iter (JBool b) = Inl TypeError"
| "py_iter (JInt n) = Inl TypeError"

text \<open>
  \<^verbatim>\<open>str.lower()\<close> on the ASCII letters, and \<^verbatim>\<open>needle in haystack\<close> on strings.
  Outside ASCII, Python's \<^verbatim>\<open>lower()\<close> yields a letter of \<open>waiver\<close> only from U+0130, and
  then followed by a combining mark, so the test for \<open>waiver\<close> gives the same answer on
  the bytes lowered in ASCII alone.
\<close>

definition lower_char :: "char \<Rightarrow> char" where
  "lower_char c =
     (case map_of (zip ''ABCDEFGHIJKLMNOPQRSTUVWXYZ'' ''abcdefghijklmnopqrstuvwxyz'') c of
        Some d \<Rightarrow> d
      | None \<Rightarrow> c)"

definition lower :: "string \<Rightarrow> string" where
  "lower s = map lower_char s"

fun str_contains :: "string \<Rightarrow> string \<Rightarrow> bool" where
  "str_contains [] n = (n = [])"
| "str_contains (c # cs) n = (prefix n (c # cs) \<or> str_contains cs n)"

definition startswith :: "string \<Rightarrow> string \<Rightarrow> bool" where
  "startswith s p = prefix p s"

section \<open>Subscription ranks\<close>

definition SUBSCRIPTION_RANKS :: "(string \<times> nat) list" where
  "SUBSCRIPTION_RANKS =
     [(''admin'', 5), (''Administrator'', 5), (''Staff'', 5), (''coach'', 4), (''live'', 3),
      (''core'', 2), (''free'', 1),
      (''Coaching'', 4), (''Live'', 3), (''Yearly + Live'', 3), (''Core'', 2),
      (''Free Trial'', 1)]"

text \<open>\<^verbatim>\<open>SUBSCRIPTION_RANKS.get(sub_val, 0)\<close>: the key is hashed first.\<close>

fun ranks_get :: "json \<Rightarrow> error + nat" where
  "ranks_get (JStr s) = Inr (case map_of SUBSCRIPTION_RANKS s of Some r \<Rightarrow> r | None \<Rightarrow> 0)"
| "ranks_get (JArr xs) = Inl TypeError"
| "ranks_get (JObj kvs) = Inl TypeError"
| "ranks_get JNull = Inr 0"
| "ranks_get (JBool b) = Inr 0"
| "ranks_get (JInt n) = Inr 0"

definition get_subscription_rank :: "json \<Rightarrow> bool \<Rightarrow> error + nat" where
  "get_subscription_rank user is_7s2 =
     bind_r (py_get user ''custom_attributes'' (JObj [])) (\<lambda>attrs.
     bind_r (py_get attrs (if is_7s2 then ''sub'' else ''lsat_course'') JNull) (\<lambda>sub_val.
       if sub_val = JNull \<or> sub_val = JStr [] then Inr 0
       else ranks_get sub_val))"

fun max_rank_loop :: "bool \<Rightarrow> nat \<Rightarrow> json list \<Rightarrow> error + nat" where
  "max_rank_loop is_7s2 max_rank [] = Inr max_rank"
| "max_rank_loop is_7s2 max_rank (user # users) =
     bind_r (get_subscription_rank user is_7s2) (\<lambda>rank.
       max_rank_loop is_7s2 (max max_rank rank) users)"

definition get_highest_subscription :: "json list \<Rightarrow> json list \<Rightarrow> error + nat" where
  "get_highest_subscription users_7s1 users_7s2 =
     bind_r (max_rank_loop False 0 users_7s1) (\<lambda>max_rank.
       max_rank_loop True max_rank users_7s2)"

definition rank_to_subscription :: "nat \<Rightarrow> string" where
  "rank_to_subscription rank =
     (case map_of [(5, ''Admin''), (4, ''Coach''), (3, ''Live''), (2, ''Core''), (1, ''Free''),
                   (0, ''Unknown'')] rank of
        Some name \<Rightarrow> name
      | None \<Rightarrow> ''Unknown'')"

section \<open>Fee waiver\<close>

definition FEE_WAIVER_TAG_ID :: string where
  "FEE_WAIVER_TAG_ID = ''11173348''"

text \<open>\<^verbatim>\<open>any(tag.get("id") == FEE_WAIVER_TAG_ID for tag in tags)\<close> stops at the first match.\<close>

fun any_tag :: "json list \<Rightarrow> error + bool" where
  "any_tag [] = Inr False"
| "any_tag (tag # tags) =
     bind_r (py_get tag ''id'' JNull) (\<lambda>v.
       if v = JStr FEE_WAIVER_TAG_ID then Inr True else any_tag tags)"

definition is_fee_waiver :: "json \<Rightarrow> error + bool" where
  "is_fee_waiver user =
     bind_r (py_get user ''tags'' (JObj [])) (\<lambda>tags_obj.
     bind_r (py_get tags_obj ''data'' (JArr [])) (\<lambda>tags.
     bind_r (py_iter tags) (\<lambda>tag_list.
     bind_r (any_tag tag_list) (\<lambda>found.
       if found then Inr True
       else
         bind_r (py_get user ''custom_attributes'' (JObj [])) (\<lambda>attrs.
         bind_r (py_get attrs ''lsat_purchase_names'' (JStr [])) (\<lambda>purchase_names.
           Inr (case purchase_names of
                  JStr s \<Rightarrow> str_contains (lower s) ''waiver''
                | _ \<Rightarrow> False)))))))"

text \<open>The loop over \<^verbatim>\<open>users["7S1"] + users["7S2"]\<close> that breaks at the first waiver.\<close>

fun any_fee_waiver :: "json list \<Rightarrow> error + bool" where
  "any_fee_waiver [] = Inr False"
| "any_fee_waiver (user # users) =
     bind_r (is_fee_waiver user) (\<lambda>w. if w then Inr True else any_fee_waiver users)"

section \<open>The window filter\<close>

fun accurate_users :: "int \<Rightarrow> json list \<Rightarrow> error + json list" where
  "accurate_users min_last_seen_timestamp [] = Inr []"
| "accurate_users min_last_seen_timestamp (user # users) =
     bind_r (py_get user ''last_seen_at'' (JInt 0)) (\<lambda>last_seen.
     bind_r (py_gt last_seen min_last_seen_timestamp) (\<lambda>keep.
     bind_r (accurate_users min_last_seen_timestamp users) (\<lambda>rest.
       Inr (if keep then user # rest else rest))))"

section \<open>Grouping by email\<close>

datatype product_group = G7S1 | G7S2 | GOther

text \<open>The inner dict \<^verbatim>\<open>{"7S1": [], "7S2": [], "Other": []}\<close>.\<close>

record email_users =
  u7S1 :: "json list"
  u7S2 :: "json list"
  uOther :: "json list"

definition no_users :: email_users where
  "no_users = \<lparr>u7S1 = [], u7S2 = [], uOther = []\<rparr>"

fun append_user :: "product_group \<Rightarrow> json \<Rightarrow> email_users \<Rightarrow> email_users" where
  "append_user G7S1 user us = us\<lparr>u7S1 := u7S1 us @ [user]\<rparr>"
| "append_user G7S2 user us = us\<lparr>u7S2 := u7S2 us @ [user]\<rparr>"
| "append_user GOther user us = us\<lparr>uOther := uOther us @ [user]\<rparr>"

text \<open>
  \<open>all_users_by_email\<close> is the list of the dict's items in insertion order.
  \<open>dict_append\<close> is \<^verbatim>\<open>if email not in d: d[email] = {...}\<close> followed by
  \<^verbatim>\<open>d[email][group].append(user)\<close>: a new key goes to the end, an old one keeps its place.
\<close>

fun dict_append ::
  "json \<Rightarrow> product_group \<Rightarrow> json \<Rightarrow> (json \<times> email_users) list \<Rightarrow> (json \<times> email_users) list"
where
  "dict_append email g user [] = [(email, append_user g user no_users)]"
| "dict_append email g user (kv # d) =
     (if same_key (fst kv) email then (fst kv, append_user g user (snd kv)) # d
      else kv # dict_append email g user d)"

text \<open>The group of a profile, from its external id.\<close>

definition user_group :: "json \<Rightarrow> error + product_group" where
  "user_group user =
     bind_r (py_get user ''external_id'' JNull) (\<lambda>external_id.
       if truthy external_id then
         (case external_id of
            JStr s \<Rightarrow> Inr (if startswith s ''usr'' then G7S2 else G7S1)
          | _ \<Rightarrow> Inl AttributeError)
       else Inr GOther)"

text \<open>The body of the grouping loop (step 4 of the script), and the loop.\<close>

definition group_user ::
  "(json \<times> email_users) list \<Rightarrow> json \<Rightarrow> error + (json \<times> email_users) list"
where
  "group_user d user =
     bind_r (py_get user ''email'' JNull) (\<lambda>email.
       if \<not> truthy email then Inr d
       else
         bind_r (user_group user) (\<lambda>g.
           if hashable email then Inr (dict_append email g user d) else Inl TypeError))"

fun group_users ::
  "(json \<times> email_users) list \<Rightarrow> json list \<Rightarrow> error + (json \<times> email_users) list"
where
  "group_users d [] = Inr d"
| "group_users d (user # users) = bind_r (group_user d user) (\<lambda>d'. group_users d' users)"

section \<open>Categorising the emails\<close>

text \<open>
  The variables of step 5. \<open>subscription_counts\<close> is the nested dict
  category, subscription, kind; it starts with 0 at every key of the three categories,
  the six \<open>subscription_buckets\<close> and the two kinds, and
  \<open>rank_to_subscription\<close> yields no other subscription, so no lookup misses.
\<close>

definition subscription_buckets :: "string list" where
  "subscription_buckets = [''Unknown'', ''Admin'', ''Coach'', ''Live'', ''Core'', ''Free'']"

record cat_state =
  only_7s2 :: "json list"
  only_7s1 :: "json list"
  both :: "json list"
  emails_with_multiple_profiles :: nat
  profiles_in_both_category :: nat
  only_7s1_profile_ids :: "json list"
  subscription_counts :: "string \<Rightarrow> string \<Rightarrow> string \<Rightarrow> nat"

definition init_state :: cat_state where
  "init_state =
     \<lparr>only_7s2 = [], only_7s1 = [], both = [], emails_with_multiple_profiles = 0,
      profiles_in_both_category = 0, only_7s1_profile_ids = [],
      subscription_counts = (\<lambda>category sub kind. 0)\<rparr>"

text \<open>\<^verbatim>\<open>subscription_counts[category][subscription][kind] += 1\<close>\<close>

definition bump ::
  "string \<Rightarrow> string \<Rightarrow> bool \<Rightarrow> (string \<Rightarrow> string \<Rightarrow> string \<Rightarrow> nat) \<Rightarrow> string \<Rightarrow> string \<Rightarrow> string \<Rightarrow> nat"
where
  "bump category subscription fee_waiver counts =
     (let kind = (if fee_waiver then ''fee_waiver'' else ''regular'')
      in counts(category := (counts category)(subscription :=
           (counts category subscription)(kind := counts category subscription kind + 1))))"

fun collect_ids :: "json list \<Rightarrow> json list \<Rightarrow> error + json list" where
  "collect_ids ids [] = Inr ids"
| "collect_ids ids (user # users) =
     bind_r (py_get user ''id'' JNull) (\<lambda>user_id.
       collect_ids (if truthy user_id then ids @ [user_id] else ids) users)"

text \<open>The body of the categorisation loop for one item of the dict, and the loop.\<close>

definition categorize_email :: "cat_state \<Rightarrow> json \<times> email_users \<Rightarrow> error + cat_state" where
  "categorize_email st item =
     (let email = fst item; users = snd item;
          s1_profile_count = length (u7S1 users);
          s2_profile_count = length (u7S2 users);
          total_profiles_for_email = s1_profile_count + s2_profile_count;
          st1 = (if total_profiles_for_email > 1
                 then st\<lparr>emails_with_multiple_profiles := emails_with_multiple_profiles st + 1\<rparr>
                 else st);
          has_active_7s1 = (s1_profile_count > 0);
          has_active_7s2 = (s2_profile_count > 0)
      in
        bind_r (get_highest_subscription (u7S1 users) (u7S2 users)) (\<lambda>highest_rank.
        let subscription = rank_to_subscription highest_rank in
        bind_r (any_fee_waiver (u7S1 users @ u7S2 users)) (\<lambda>fee_waiver.
          if has_active_7s2 \<and> \<not> has_active_7s1 then
            Inr (st1\<lparr>only_7s2 := only_7s2 st1 @ [email],
                     subscription_counts :=
                       bump ''only_7s2'' subscription fee_waiver (subscription_counts st1)\<rparr>)
          else if has_active_7s1 \<and> \<not> has_active_7s2 then
            bind_r (collect_ids (only_7s1_profile_ids st1) (u7S1 users)) (\<lambda>ids.
              Inr (st1\<lparr>only_7s1 := only_7s1 st1 @ [email],
                       only_7s1_profile_ids := ids,
                       subscription_counts :=
                         bump ''only_7s1'' subscription fee_waiver (subscription_counts st1)\<rparr>))
          else if has_active_7s1 \<and> has_active_7s2 then
            Inr (st1\<lparr>both := both st1 @ [email],
                     profiles_in_both_category :=
                       profiles_in_both_category st1 + total_profiles_for_email,
                     subscription_counts :=
                       bump ''both'' subscription fee_waiver (subscription_counts st1)\<rparr>)
          else Inr st1)))"

fun categorize :: "cat_state \<Rightarrow> (json \<times> email_users) list \<Rightarrow> error + cat_state" where
  "categorize st [] = Inr st"
| "categorize st (item # items) =
     bind_r (categorize_email st item) (\<lambda>st'. categorize st' items)"

section \<open>Sampling and the result\<close>

text \<open>
  \<^verbatim>\<open>random.shuffle(x)\<close> is the standard library's loop
  \<^verbatim>\<open>for i in reversed(range(1, len(x))): j = randbelow(i + 1); x[i], x[j] = x[j], x[i]\<close>.
  The generator is a stream of draws \<open>rnd\<close> read from position \<open>p\<close>; a draw is reduced
  into the range of \<^verbatim>\<open>randbelow\<close>.
\<close>

fun shuffle_loop :: "(nat \<Rightarrow> nat) \<Rightarrow> nat \<Rightarrow> nat \<Rightarrow> 'a list \<Rightarrow> 'a list" where
  "shuffle_loop rnd p 0 xs = xs"
| "shuffle_loop rnd p (Suc i) xs =
     (let j = rnd p mod (Suc i + 1)
      in shuffle_loop rnd (p + 1) i (xs[Suc i := xs ! j, j := xs ! Suc i]))"

definition shuffle :: "(nat \<Rightarrow> nat) \<Rightarrow> nat \<Rightarrow> 'a list \<Rightarrow> 'a list" where
  "shuffle rnd p xs = shuffle_loop rnd p (length xs - 1) xs"

record category_result =
  count_emails :: nat
  sample :: "json list"
  subscription_breakdown :: "string \<Rightarrow> string \<Rightarrow> nat"

record both_result = category_result +
  total_profiles_in_this_category :: nat

record aggregate_result =
  total_unique_emails :: nat
  total_profiles_in_window :: nat
  result_emails_with_multiple_profiles :: nat
  result_only_7s2 :: category_result
  result_only_7s1 :: category_result
  result_both :: both_result

definition build_result ::
  "(nat \<Rightarrow> nat) \<Rightarrow> json list \<Rightarrow> (json \<times> email_users) list \<Rightarrow> cat_state \<Rightarrow> aggregate_result"
where
  "build_result rnd users all_users_by_email st =
     (let p1 = length (only_7s2 st) - 1;
          p2 = p1 + (length (only_7s1 st) - 1);
          shuffled_7s2 = shuffle rnd 0 (only_7s2 st);
          shuffled_7s1 = shuffle rnd p1 (only_7s1 st);
          shuffled_both = shuffle rnd p2 (both st)
      in \<lparr>total_unique_emails = length all_users_by_email,
          total_profiles_in_window = length users,
          result_emails_with_multiple_profiles = emails_with_multiple_profiles st,
          result_only_7s2 =
            \<lparr>count_emails = length shuffled_7s2, sample = take 10 shuffled_7s2,
             subscription_breakdown = subscription_counts st ''only_7s2''\<rparr>,
          result_only_7s1 =
            \<lparr>count_emails = length shuffled_7s1, sample = take 10 shuffled_7s1,
             subscription_breakdown = subscription_counts st ''only_7s1''\<rparr>,
          result_both =
            \<lparr>count_emails = length shuffled_both, sample = take 10 shuffled_both,
             subscription_breakdown = subscription_counts st ''both'',
             total_profiles_in_this_category = profiles_in_both_category st\<rparr>\<rparr>)"

text \<open>
  Steps 3 to 5 of the main script: the window filter, the grouping loop and the
  categorisation loop. The triple is the filtered list, the dict and the loop's final state.
\<close>

definition classify ::
  "int \<Rightarrow> json list \<Rightarrow> error + (json list \<times> (json \<times> email_users) list \<times> cat_state)"
where
  "classify min_last_seen_timestamp all_users_from_api =
     bind_r (accurate_users min_last_seen_timestamp all_users_from_api) (\<lambda>users.
     bind_r (group_users [] users) (\<lambda>all_users_by_email.
     bind_r (categorize init_state all_users_by_email) (\<lambda>st.
       Inr (users, all_users_by_email, st))))"


section \<open>Notions used to state the properties\<close>

text \<open>The two halves of \<open>SUBSCRIPTION_RANKS\<close>, as its comments divide it.\<close>

definition ranks_7s2 :: "(string \<times> nat) list" where
  "ranks_7s2 =
     [(''admin'', 5), (''Administrator'', 5), (''Staff'', 5), (''coach'', 4), (''live'', 3),
      (''core'', 2), (''free'', 1)]"

definition ranks_7s1 :: "(string \<times> nat) list" where
  "ranks_7s1 =
     [(''Coaching'', 4), (''Live'', 3), (''Yearly + Live'', 3), (''Core'', 2),
      (''Free Trial'', 1)]"

text \<open>The raw subscription field of a product line, and the vocabulary a per-product
  lookup would use.\<close>

definition raw_field :: "bool \<Rightarrow> string" where
  "raw_field is_7s2 = (if is_7s2 then ''sub'' else ''lsat_course'')"

definition own_table :: "bool \<Rightarrow> (string \<times> nat) list" where
  "own_table is_7s2 = (if is_7s2 then ranks_7s2 else ranks_7s1)"

definition live_7s1_profile :: json where
  "live_7s1_profile =
     JObj [(''email'', JStr ''a@example.com''), (''external_id'', JStr ''4711''),
           (''custom_attributes'', JObj [(''lsat_course'', JStr ''live'')])]"

text \<open>The last-seen value of a profile, 0 when the field is absent; and the profiles
  whose field, when present, is a number.\<close>

definition last_seen :: "json \<Rightarrow> int" where
  "last_seen user =
     (case user of
        JObj kvs \<Rightarrow> (case map_of kvs ''last_seen_at'' of Some (JInt n) \<Rightarrow> n | _ \<Rightarrow> 0)
      | _ \<Rightarrow> 0)"

definition timestamp_ok :: "json \<Rightarrow> bool" where
  "timestamp_ok user =
     (case user of
        JObj kvs \<Rightarrow>
          (case map_of kvs ''last_seen_at'' of
             None \<Rightarrow> True
           | Some (JInt n) \<Rightarrow> True
           | Some _ \<Rightarrow> False)
      | _ \<Rightarrow> False)"

text \<open>
  What a profile shows of a fee waiver: the ids of its tags and its purchase-descriptor
  text (empty when absent or not a string); and the shape of the fields that
  \<open>is_fee_waiver\<close> walks through.
\<close>

definition tag_ids :: "json \<Rightarrow> json list" where
  "tag_ids user =
     (case user of
        JObj kvs \<Rightarrow>
          (case map_of kvs ''tags'' of
             Some (JObj t) \<Rightarrow>
               (case map_of t ''data'' of
                  Some (JArr tags) \<Rightarrow>
                    concat (map (\<lambda>tag. case tag of
                                           JObj tkv \<Rightarrow> (case map_of tkv ''id'' of Some v \<Rightarrow> [v] | None \<Rightarrow> [])
                                         | _ \<Rightarrow> []) tags)
                | _ \<Rightarrow> [])
           | _ \<Rightarrow> [])
      | _ \<Rightarrow> [])"

definition purchase_text :: "json \<Rightarrow> string" where
  "purchase_text user =
     (case user of
        JObj kvs \<Rightarrow>
          (case map_of kvs ''custom_attributes'' of
             Some (JObj attrs) \<Rightarrow>
               (case map_of attrs ''lsat_purchase_names'' of Some (JStr s) \<Rightarrow> s | _ \<Rightarrow> [])
           | _ \<Rightarrow> [])
      | _ \<Rightarrow> [])"

definition waiver_evidence :: "json \<Rightarrow> bool" where
  "waiver_evidence user =
     (JStr FEE_WAIVER_TAG_ID \<in> set (tag_ids user)
      \<or> sublist ''waiver'' (lower (purchase_text user)))"

definition is_dict :: "json \<Rightarrow> bool" where
  "is_dict v = (case v of JObj kvs \<Rightarrow> True | _ \<Rightarrow> False)"

definition tags_ok :: "json \<Rightarrow> bool" where
  "tags_ok user =
     (case user of
        JObj kvs \<Rightarrow>
          (case map_of kvs ''tags'' of
             None \<Rightarrow> True
           | Some (JObj t) \<Rightarrow>
               (case map_of t ''data'' of
                  None \<Rightarrow> True
                | Some (JArr tags) \<Rightarrow> list_all is_dict tags
                | Some _ \<Rightarrow> False)
           | Some _ \<Rightarrow> False)
      | _ \<Rightarrow> False)"

definition attributes_dict :: "json \<Rightarrow> bool" where
  "attributes_dict user =
     (case user of
        JObj kvs \<Rightarrow>
          (case map_of kvs ''custom_attributes'' of
             None \<Rightarrow> True
           | Some (JObj attrs) \<Rightarrow> True
           | Some _ \<Rightarrow> False)
      | _ \<Rightarrow> False)"

text \<open>
  The email of a profile (null when absent), the profiles of an email, and the profiles
  of an email that the grouping loop files under a group.
\<close>

definition email_of :: "json \<Rightarrow> json" where
  "email_of user =
     (case user of
        JObj kvs \<Rightarrow> (case map_of kvs ''email'' of Some e \<Rightarrow> e | None \<Rightarrow> JNull)
      | _ \<Rightarrow> JNull)"

definition has_email :: "json \<Rightarrow> json \<Rightarrow> bool" where
  "has_email e user = (truthy (email_of user) \<and> same_key (email_of user) e)"

definition profiles_of :: "product_group \<Rightarrow> json \<Rightarrow> json list \<Rightarrow> json list" where
  "profiles_of g e users = filter (\<lambda>u. has_email e u \<and> user_group u = Inr g) users"

definition groups_of :: "json \<Rightarrow> json list \<Rightarrow> email_users" where
  "groups_of e users =
     \<lparr>u7S1 = profiles_of G7S1 e users, u7S2 = profiles_of G7S2 e users,
      uOther = profiles_of GOther e users\<rparr>"

text \<open>The invariant of the grouping loop, and the branch conditions of the
  categorisation loop.\<close>

definition nkeys :: "(json \<times> email_users) list \<Rightarrow> json list" where
  "nkeys d = map (\<lambda>kv. key_norm (fst kv)) d"

definition grouped :: "json list \<Rightarrow> (json \<times> email_users) list \<Rightarrow> bool" where
  "grouped users d =
     (distinct (nkeys d)
      \<and> (\<forall>kv\<in>set d. snd kv = groups_of (fst kv) users \<and> (\<exists>u\<in>set users. has_email (fst kv) u))
      \<and> (\<forall>u\<in>set users. truthy (email_of u) \<longrightarrow>
            (\<exists>g. user_group u = Inr g) \<and> key_norm (email_of u) \<in> set (nkeys d)))"

definition is_only_7s2 :: "json \<times> email_users \<Rightarrow> bool" where
  "is_only_7s2 kv = (u7S2 (snd kv) \<noteq> [] \<and> u7S1 (snd kv) = [])"

definition is_only_7s1 :: "json \<times> email_users \<Rightarrow> bool" where
  "is_only_7s1 kv = (u7S1 (snd kv) \<noteq> [] \<and> u7S2 (snd kv) = [])"

definition is_both :: "json \<times> email_users \<Rightarrow> bool" where
  "is_both kv = (u7S1 (snd kv) \<noteq> [] \<and> u7S2 (snd kv) \<noteq> [])"

definition ab_profiles :: "json \<times> email_users \<Rightarrow> nat" where
  "ab_profiles kv = length (u7S1 (snd kv)) + length (u7S2 (snd kv))"

text \<open>
  A small run: eight profiles, of which the last has no last-seen field. The second
  profile of \<open>a@x.org\<close> has no external id, so it is filed under Other; it carries the
  rank of a coach and an admin, the waiver tag and a waiver purchase.
\<close>

definition demo_a1 :: json where
  "demo_a1 = JObj [(''id'', JStr ''p1''), (''email'', JStr ''a@x.org''), (''external_id'', JStr ''1001''),
     (''last_seen_at'', JInt 100),
     (''custom_attributes'', JObj [(''lsat_course'', JStr ''Live''), (''lsat_purchase_names'', JStr ''Live Plan'')])]"

definition demo_b1 :: json where
  "demo_b1 = JObj [(''id'', JStr ''p2''), (''email'', JStr ''b@x.org''), (''external_id'', JStr ''usr_2''),
     (''last_seen_at'', JInt 100),
     (''custom_attributes'', JObj [(''sub'', JStr ''core'')]),
     (''tags'', JObj [(''data'', JArr [JObj [(''id'', JStr ''11173348'')]])])]"

definition demo_c1 :: json where
  "demo_c1 = JObj [(''id'', JStr ''p3''), (''email'', JStr ''c@x.org''), (''external_id'', JStr ''1003''),
     (''last_seen_at'', JInt 100),
     (''custom_attributes'', JObj [(''lsat_course'', JStr ''Coaching'')])]"

definition demo_c2 :: json where
  "demo_c2 = JObj [(''id'', JStr ''p4''), (''email'', JStr ''c@x.org''), (''external_id'', JStr ''usr_4''),
     (''last_seen_at'', JInt 100),
     (''custom_attributes'', JObj [(''sub'', JStr ''core'')])]"

definition demo_o1 :: json where
  "demo_o1 = JObj [(''id'', JStr ''p5''), (''email'', JStr ''o@x.org''), (''last_seen_at'', JInt 100)]"

definition demo_n1 :: json where
  "demo_n1 = JObj [(''id'', JStr ''p6''), (''external_id'', JStr ''1006''), (''last_seen_at'', JInt 100)]"

definition demo_a2 :: json where
  "demo_a2 = JObj [(''id'', JStr ''p7''), (''email'', JStr ''a@x.org''), (''last_seen_at'', JInt 100),
     (''custom_attributes'',
        JObj [(''lsat_course'', JStr ''Coaching''), (''sub'', JStr ''admin''),
              (''lsat_purchase_names'', JStr ''fee waiver'')]),
     (''tags'', JObj [(''data'', JArr [JObj [(''id'', JStr ''11173348'')]])])]"

definition demo_old :: json where
  "demo_old = JObj [(''id'', JStr ''p8''), (''email'', JStr ''b@x.org''), (''external_id'', JStr ''usr_8'')]"

definition demo_profiles :: "json list" where
  "demo_profiles = [demo_a1, demo_b1, demo_c1, demo_c2, demo_o1, demo_n1, demo_a2, demo_old]"

definition demo_window :: "json list" where
  "demo_window = [demo_a1, demo_b1, demo_c1, demo_c2, demo_o1, demo_n1, demo_a2]"

definition demo_dict :: "(json \<times> email_users) list" where
  "demo_dict =
     [(JStr ''a@x.org'', \<lparr>u7S1 = [demo_a1], u7S2 = [], uOther = [demo_a2]\<rparr>),
      (JStr ''b@x.org'', \<lparr>u7S1 = [], u7S2 = [demo_b1], uOther = []\<rparr>),
      (JStr ''c@x.org'', \<lparr>u7S1 = [demo_c1], u7S2 = [demo_c2], uOther = []\<rparr>),
      (JStr ''o@x.org'', \<lparr>u7S1 = [], u7S2 = [], uOther = [demo_o1]\<rparr>)]"






text \<open>A profile whose purchase names mention a waiver in capitals.\<close>

definition waiver_text_profile :: json where
  "waiver_text_profile =
     JObj [(''id'', JStr ''p9''), (''email'', JStr ''w@x.org''), (''external_id'', JStr ''1009''),
           (''last_seen_at'', JInt 100),
           (''custom_attributes'', JObj [(''lsat_purchase_names'', JStr ''LSAT Fee WAIVER, Core'')])]"






text \<open>
  The tier of a single profile under a product line (0 where the resolver raises); the
  tier and the waiver flag of an email, over its 7S1 and 7S2 profiles in the window; the
  same over the two lists of a group; and the cell of the breakdown that an item of the
  dict is counted in.
\<close>

definition profile_rank :: "bool \<Rightarrow> json \<Rightarrow> nat" where
  "profile_rank is_7s2 user =
     (case get_subscription_rank user is_7s2 of Inr rank \<Rightarrow> rank | Inl e \<Rightarrow> 0)"

definition email_tier :: "json \<Rightarrow> json list \<Rightarrow> nat" where
  "email_tier e users =
     Max (insert 0 (profile_rank False ` set (profiles_of G7S1 e users)
                    \<union> profile_rank True ` set (profiles_of G7S2 e users)))"

definition email_waiver :: "json \<Rightarrow> json list \<Rightarrow> bool" where
  "email_waiver e users =
     (\<exists>u\<in>set (profiles_of G7S1 e users @ profiles_of G7S2 e users). is_fee_waiver u = Inr True)"

definition group_tier :: "email_users \<Rightarrow> nat" where
  "group_tier g =
     Max (insert 0 (profile_rank False ` set (u7S1 g) \<union> profile_rank True ` set (u7S2 g)))"

definition group_waiver :: "email_users \<Rightarrow> bool" where
  "group_waiver g = (\<exists>u\<in>set (u7S1 g @ u7S2 g). is_fee_waiver u = Inr True)"

definition cell :: "json \<times> email_users \<Rightarrow> string \<Rightarrow> string \<Rightarrow> bool" where
  "cell kv s k =
     (rank_to_subscription (group_tier (snd kv)) = s
      \<and> k = (if group_waiver (snd kv) then ''fee_waiver'' else ''regular''))"

definition in_bucket :: "string \<Rightarrow> json \<times> email_users \<Rightarrow> bool" where
  "in_bucket c kv =
     ((c = ''only_7s2'' \<and> is_only_7s2 kv) \<or> (c = ''only_7s1'' \<and> is_only_7s1 kv)
      \<or> (c = ''both'' \<and> is_both kv))"





section \<open>Auxiliary facts\<close>

lemma bind_r_eq_Inr: "(bind_r m f = Inr y) = (\<exists>x. m = Inr x \<and> f x = Inr y)"
  by (cases m) auto

lemma rank_to_subscription_bucket: "rank_to_subscription rank \<in> set subscription_buckets"
  by (simp add: rank_to_subscription_def subscription_buckets_def)

lemma SUBSCRIPTION_RANKS_split: "SUBSCRIPTION_RANKS = ranks_7s2 @ ranks_7s1"
  by (simp add: SUBSCRIPTION_RANKS_def ranks_7s2_def ranks_7s1_def)

lemma accurate_users_filter:
  "\<forall>u\<in>set users. timestamp_ok u \<Longrightarrow>
   accurate_users t users = Inr (filter (\<lambda>u. t < last_seen u) users)"
  by (induction users)
     (auto simp: timestamp_ok_def last_seen_def split: json.splits option.splits)

lemma Max_insert_Max:
  fixes A B :: "nat set"
  assumes "finite A" "finite B"
  shows "Max (insert (Max (insert 0 A)) B) = Max (insert 0 (A \<union> B))"
proof (cases "B = {}")
  case True
  then show ?thesis by simp
next
  case False
  have "Max (insert 0 A \<union> B) = max (Max (insert 0 A)) (Max B)"
    using assms False by (intro Max_Un) auto
  moreover have "Max (insert (Max (insert 0 A)) B) = max (Max (insert 0 A)) (Max B)"
    using assms False by simp
  ultimately show ?thesis by simp
qed

lemma max_rank_loop_Max:
  "\<forall>u\<in>set users. get_subscription_rank u b = Inr (r u) \<Longrightarrow>
   max_rank_loop b m users = Inr (Max (insert m (r ` set users)))"
proof (induction users arbitrary: m)
  case Nil
  then show ?case by simp
next
  case (Cons u users)
  have "Max (insert (max m (r u)) (r ` set users)) =
        Max (insert m (insert (r u) (r ` set users)))"
  proof (cases "set users = {}")
    case True
    then show ?thesis by simp
  next
    case False
    then show ?thesis by (simp add: max.assoc)
  qed
  with Cons show ?case by simp
qed

lemma str_contains_sublist: "str_contains h n = sublist n h"
  by (induction h) (auto simp: sublist_Cons_right)

lemma lower_Nil: "lower [] = []"
  by (simp add: lower_def)

lemma any_tag_dicts:
  "list_all is_dict tags \<Longrightarrow>
   any_tag tags =
     Inr (JStr FEE_WAIVER_TAG_ID \<in>
            set (concat (map (\<lambda>tag. case tag of
                                       JObj tkv \<Rightarrow> (case map_of tkv ''id'' of Some v \<Rightarrow> [v] | None \<Rightarrow> [])
                                     | _ \<Rightarrow> []) tags)))"
  by (induction tags) (auto simp: is_dict_def split: json.splits option.splits)

lemma is_fee_waiver_evidence:
  assumes "tags_ok user" "attributes_dict user"
  shows "is_fee_waiver user = Inr (waiver_evidence user)"
proof -
  from assms obtain kvs where u: "user = JObj kvs"
    by (auto simp: tags_ok_def split: json.splits)
  show ?thesis
  proof (cases "map_of kvs ''tags''")
    case None
    with assms u show ?thesis
      by (auto simp: is_fee_waiver_def waiver_evidence_def tag_ids_def purchase_text_def
          attributes_dict_def str_contains_sublist lower_Nil split: json.splits option.splits)
  next
    case (Some tv)
    with assms u obtain t where t: "tv = JObj t"
      by (auto simp: tags_ok_def split: json.splits)
    show ?thesis
    proof (cases "map_of t ''data''")
      case None
      with assms u Some t show ?thesis
        by (auto simp: is_fee_waiver_def waiver_evidence_def tag_ids_def purchase_text_def
            attributes_dict_def str_contains_sublist lower_Nil split: json.splits option.splits)
    next
      case (Some dv)
      with assms u \<open>map_of kvs ''tags'' = Some tv\<close> t obtain tags where
        d: "dv = JArr tags" and ok: "list_all is_dict tags"
        by (auto simp: tags_ok_def split: json.splits)
      from assms(2) u \<open>map_of kvs ''tags'' = Some tv\<close> t Some d any_tag_dicts[OF ok]
      show ?thesis
        by (auto simp: is_fee_waiver_def waiver_evidence_def tag_ids_def purchase_text_def
            attributes_dict_def str_contains_sublist lower_Nil split: json.splits option.splits)
    qed
  qed
qed

lemma any_fee_waiver_exists:
  "\<forall>u\<in>set users. is_fee_waiver u = Inr (w u) \<Longrightarrow>
   any_fee_waiver users = Inr (\<exists>u\<in>set users. w u)"
  by (induction users) auto

lemma nkeys_dict_append:
  "nkeys (dict_append e g u d) =
     (if key_norm e \<in> set (nkeys d) then nkeys d else nkeys d @ [key_norm e])"
  by (induction d) (auto simp: nkeys_def same_key_def)

lemma dict_append_cases:
  assumes "distinct (nkeys d)" and "kv \<in> set (dict_append e g u d)"
  shows "(\<not> same_key (fst kv) e \<and> kv \<in> set d)
       \<or> (same_key (fst kv) e \<and> (\<exists>v0. (fst kv, v0) \<in> set d \<and> snd kv = append_user g u v0))
       \<or> (kv = (e, append_user g u no_users) \<and> key_norm e \<notin> set (nkeys d))"
  using assms
proof (induction d)
  case Nil
  then show ?case by (simp add: nkeys_def)
next
  case (Cons a d)
  show ?case
  proof (cases "same_key (fst a) e")
    case True
    with Cons.prems have "kv = (fst a, append_user g u (snd a)) \<or> kv \<in> set d" by auto
    then show ?thesis
    proof
      assume "kv = (fst a, append_user g u (snd a))"
      with True show ?thesis by (cases a) auto
    next
      assume in_d: "kv \<in> set d"
      then have "key_norm (fst kv) \<in> set (nkeys d)"
        by (simp add: nkeys_def)
      moreover from Cons.prems(1) have "key_norm (fst a) \<notin> set (nkeys d)"
        by (simp add: nkeys_def)
      ultimately have "key_norm (fst kv) \<noteq> key_norm (fst a)"
        by metis
      with True have "\<not> same_key (fst kv) e" by (simp add: same_key_def)
      with in_d show ?thesis by simp
    qed
  next
    case False
    with Cons.prems have "kv = a \<or> kv \<in> set (dict_append e g u d)" by auto
    then show ?thesis
    proof
      assume "kv = a"
      with False show ?thesis by simp
    next
      assume "kv \<in> set (dict_append e g u d)"
      moreover from Cons.prems(1) have "distinct (nkeys d)" by (simp add: nkeys_def)
      ultimately have "(\<not> same_key (fst kv) e \<and> kv \<in> set d)
       \<or> (same_key (fst kv) e \<and> (\<exists>v0. (fst kv, v0) \<in> set d \<and> snd kv = append_user g u v0))
       \<or> (kv = (e, append_user g u no_users) \<and> key_norm e \<notin> set (nkeys d))"
        by (rule Cons.IH[rotated])
      with False show ?thesis by (auto simp: nkeys_def same_key_def)
    qed
  qed
qed

lemma group_user_Inr:
  assumes "group_user d u = Inr d'"
  shows "(\<not> truthy (email_of u) \<and> d' = d)
       \<or> (truthy (email_of u) \<and> (\<exists>g. user_group u = Inr g \<and> d' = dict_append (email_of u) g u d))"
  using assms
  by (cases u) (auto simp: group_user_def email_of_def bind_r_eq_Inr split: if_splits option.splits)

lemma profiles_of_snoc:
  "profiles_of g e (users @ [u]) =
     profiles_of g e users @ (if has_email e u \<and> user_group u = Inr g then [u] else [])"
  by (simp add: profiles_of_def)

lemma groups_of_snoc_other:
  "\<not> has_email e u \<Longrightarrow> groups_of e (users @ [u]) = groups_of e users"
  by (simp add: groups_of_def profiles_of_snoc)

lemma groups_of_snoc_same:
  "has_email e u \<Longrightarrow> user_group u = Inr g \<Longrightarrow>
   groups_of e (users @ [u]) = append_user g u (groups_of e users)"
  by (cases g) (simp_all add: groups_of_def profiles_of_snoc)

lemma groups_of_none:
  "\<forall>u\<in>set users. \<not> has_email e u \<Longrightarrow> groups_of e users = no_users"
  by (simp add: groups_of_def profiles_of_def no_users_def)

lemma group_user_grouped:
  assumes inv: "grouped users d" and step: "group_user d u = Inr d'"
  shows "grouped (users @ [u]) d'"
proof -
  from inv have dist: "distinct (nkeys d)"
    and vals: "\<And>kv. kv \<in> set d \<Longrightarrow> snd kv = groups_of (fst kv) users"
    and occ: "\<And>kv. kv \<in> set d \<Longrightarrow> \<exists>u\<in>set users. has_email (fst kv) u"
    and cov: "\<And>x. x \<in> set users \<Longrightarrow> truthy (email_of x) \<Longrightarrow>
                (\<exists>g. user_group x = Inr g) \<and> key_norm (email_of x) \<in> set (nkeys d)"
    by (auto simp: grouped_def)
  from group_user_Inr[OF step] show ?thesis
  proof (elim disjE conjE exE)
    assume f: "\<not> truthy (email_of u)" and d': "d' = d"
    then have "\<And>e. \<not> has_email e u" by (simp add: has_email_def)
    with inv d' f show ?thesis
      by (auto simp: grouped_def groups_of_snoc_other)
  next
    fix g
    assume t: "truthy (email_of u)" and g: "user_group u = Inr g"
      and d': "d' = dict_append (email_of u) g u d"
    let ?e = "email_of u"
    have he: "\<And>k. has_email k u \<longleftrightarrow> same_key k ?e"
      using t by (auto simp: has_email_def same_key_def)
    have 1: "distinct (nkeys d')"
      using dist by (simp add: d' nkeys_dict_append)
    have 2: "snd kv = groups_of (fst kv) (users @ [u]) \<and> (\<exists>x\<in>set (users @ [u]). has_email (fst kv) x)"
      if "kv \<in> set d'" for kv
    proof -
      from dict_append_cases[OF dist that[unfolded d']]
      consider (old) "\<not> same_key (fst kv) ?e" "kv \<in> set d"
        | (upd) v0 where "same_key (fst kv) ?e" "(fst kv, v0) \<in> set d" "snd kv = append_user g u v0"
        | (new) "kv = (?e, append_user g u no_users)" "key_norm ?e \<notin> set (nkeys d)"
        by blast
      then show ?thesis
      proof cases
        case old
        then show ?thesis using vals[of kv] occ[of kv]
          by (auto simp: groups_of_snoc_other he)
      next
        case upd
        from vals[OF upd(2)] have "v0 = groups_of (fst kv) users" by simp
        with upd show ?thesis
          by (auto simp: groups_of_snoc_same he g)
      next
        case new
        have "\<forall>x\<in>set users. \<not> has_email ?e x"
        proof
          fix x assume x: "x \<in> set users"
          show "\<not> has_email ?e x"
          proof
            assume "has_email ?e x"
            then have "truthy (email_of x)" "key_norm (email_of x) = key_norm ?e"
              by (auto simp: has_email_def same_key_def)
            with cov[OF x] new(2) show False by auto
          qed
        qed
        then have "groups_of ?e users = no_users" by (rule groups_of_none)
        with new(1) show ?thesis
          using groups_of_snoc_same[of ?e u g users] he
          by (auto simp: same_key_def g)
      qed
    qed
    have 3: "(\<exists>g. user_group x = Inr g) \<and> key_norm (email_of x) \<in> set (nkeys d')"
      if "x \<in> set (users @ [u])" "truthy (email_of x)" for x
      using that cov[of x] g by (auto simp: d' nkeys_dict_append)
    show ?thesis
      unfolding grouped_def using 1 2 3 by blast
  qed
qed

lemma group_users_grouped_from:
  "grouped pre d0 \<Longrightarrow> group_users d0 users = Inr d \<Longrightarrow> grouped (pre @ users) d"
proof (induction users arbitrary: pre d0)
  case Nil
  then show ?case by simp
next
  case (Cons u users)
  from Cons.prems(2) obtain d1 where s: "group_user d0 u = Inr d1" and r: "group_users d1 users = Inr d"
    by (auto simp: bind_r_eq_Inr)
  from group_user_grouped[OF Cons.prems(1) s] have "grouped (pre @ [u]) d1" .
  from Cons.IH[OF this r] show ?case by simp
qed

lemma group_users_grouped: "group_users [] users = Inr d \<Longrightarrow> grouped users d"
  using group_users_grouped_from[of "[]" "[]" users d]
  by (simp add: grouped_def nkeys_def)

lemma categorize_email_Inr:
  assumes "categorize_email st kv = Inr st'"
  shows "only_7s2 st' = only_7s2 st @ (if is_only_7s2 kv then [fst kv] else [])
       \<and> only_7s1 st' = only_7s1 st @ (if is_only_7s1 kv then [fst kv] else [])
       \<and> both st' = both st @ (if is_both kv then [fst kv] else [])
       \<and> emails_with_multiple_profiles st' =
           emails_with_multiple_profiles st + (if 1 < ab_profiles kv then 1 else 0)
       \<and> profiles_in_both_category st' =
           profiles_in_both_category st + (if is_both kv then ab_profiles kv else 0)"
proof (cases "u7S1 (snd kv) = []")
  case e1: True
  show ?thesis
  proof (cases "u7S2 (snd kv) = []")
    case True
    with e1 assms show ?thesis
      by (auto simp: categorize_email_def Let_def bind_r_eq_Inr is_only_7s2_def is_only_7s1_def
          is_both_def ab_profiles_def)
  next
    case False
    with e1 assms show ?thesis
      by (cases "1 < length (u7S2 (snd kv))")
         (auto simp: categorize_email_def Let_def bind_r_eq_Inr is_only_7s2_def is_only_7s1_def
          is_both_def ab_profiles_def)
  qed
next
  case n1: False
  show ?thesis
  proof (cases "u7S2 (snd kv) = []")
    case True
    with n1 assms show ?thesis
      by (cases "1 < length (u7S1 (snd kv))")
         (auto simp: categorize_email_def Let_def bind_r_eq_Inr is_only_7s2_def is_only_7s1_def
          is_both_def ab_profiles_def)
  next
    case False
    with n1 assms show ?thesis
      by (cases "1 < length (u7S1 (snd kv)) + length (u7S2 (snd kv))")
         (auto simp: categorize_email_def Let_def bind_r_eq_Inr is_only_7s2_def is_only_7s1_def
          is_both_def ab_profiles_def)
  qed
qed

lemma categorize_Inr:
  "categorize st d = Inr st' \<Longrightarrow>
     only_7s2 st' = only_7s2 st @ map fst (filter is_only_7s2 d)
   \<and> only_7s1 st' = only_7s1 st @ map fst (filter is_only_7s1 d)
   \<and> both st' = both st @ map fst (filter is_both d)
   \<and> emails_with_multiple_profiles st' =
       emails_with_multiple_profiles st + length (filter (\<lambda>kv. 1 < ab_profiles kv) d)
   \<and> profiles_in_both_category st' =
       profiles_in_both_category st + sum_list (map ab_profiles (filter is_both d))"
proof (induction d arbitrary: st)
  case Nil
  then show ?case by simp
next
  case (Cons kv d)
  from Cons.prems obtain st1 where s: "categorize_email st kv = Inr st1"
    and r: "categorize st1 d = Inr st'"
    by (auto simp: bind_r_eq_Inr)
  from Cons.IH[OF r] categorize_email_Inr[OF s] show ?case by simp
qed

lemma classify_Inr:
  "classify t all_users = Inr (users, d, st) \<Longrightarrow>
   accurate_users t all_users = Inr users \<and> group_users [] users = Inr d
   \<and> categorize init_state d = Inr st"
  by (auto simp: classify_def bind_r_eq_Inr)

lemma grouped_distinct_fst: "grouped users d \<Longrightarrow> distinct (map fst d)"
proof -
  assume "grouped users d"
  then have "distinct (map key_norm (map fst d))"
    by (simp add: grouped_def nkeys_def comp_def)
  then show ?thesis
    unfolding distinct_map[of key_norm] by simp
qed

lemma fst_filter_mem:
  assumes "distinct (map fst d)" and "kv \<in> set d"
  shows "fst kv \<in> set (map fst (filter P d)) \<longleftrightarrow> P kv"
proof
  assume "fst kv \<in> set (map fst (filter P d))"
  then obtain kv' where kv': "kv' \<in> set d" "P kv'" "fst kv' = fst kv" by auto
  from assms(1) have "inj_on fst (set d)" by (simp add: distinct_map)
  with kv' assms(2) have "kv' = kv" by (auto dest: inj_onD)
  with kv' show "P kv" by simp
next
  assume "P kv"
  with assms(2) show "fst kv \<in> set (map fst (filter P d))" by force
qed

lemma classify_facts:
  assumes "classify t all_users = Inr (users, d, st)"
  shows "grouped users d"
    and "only_7s2 st = map fst (filter is_only_7s2 d)"
    and "only_7s1 st = map fst (filter is_only_7s1 d)"
    and "both st = map fst (filter is_both d)"
    and "emails_with_multiple_profiles st = length (filter (\<lambda>kv. 1 < ab_profiles kv) d)"
    and "profiles_in_both_category st = sum_list (map ab_profiles (filter is_both d))"
  using classify_Inr[OF assms] group_users_grouped[of users d] categorize_Inr[of init_state d st]
  by (simp_all add: init_state_def)

lemma grouped_snd:
  "grouped users d \<Longrightarrow> kv \<in> set d \<Longrightarrow>
   u7S1 (snd kv) = profiles_of G7S1 (fst kv) users \<and> u7S2 (snd kv) = profiles_of G7S2 (fst kv) users"
  by (auto simp: grouped_def groups_of_def)

lemmas demo_defs = demo_profiles_def demo_window_def demo_dict_def demo_a1_def demo_b1_def demo_c1_def
  demo_c2_def demo_o1_def demo_n1_def demo_a2_def demo_old_def

lemma demo_window_eq: "accurate_users 50 demo_profiles = Inr demo_window"
  by (simp add: demo_defs)

lemma demo_dict_eq: "group_users [] demo_window = Inr demo_dict"
  by (simp add: demo_defs group_user_def user_group_def startswith_def same_key_def no_users_def)

lemma demo_categorize:
  "\<exists>st. categorize init_state demo_dict = Inr st
      \<and> only_7s1 st = [JStr ''a@x.org''] \<and> only_7s2 st = [JStr ''b@x.org'']
      \<and> both st = [JStr ''c@x.org''] \<and> emails_with_multiple_profiles st = 1
      \<and> profiles_in_both_category st = 2
      \<and> only_7s1_profile_ids st = [JStr ''p1'']
      \<and> subscription_counts st ''only_7s1'' ''Live'' ''regular'' = 1
      \<and> subscription_counts st ''only_7s2'' ''Core'' ''fee_waiver'' = 1
      \<and> subscription_counts st ''both'' ''Coach'' ''regular'' = 1"
  by (simp add: demo_defs categorize_email_def init_state_def get_highest_subscription_def
      get_subscription_rank_def SUBSCRIPTION_RANKS_def rank_to_subscription_def is_fee_waiver_def
      FEE_WAIVER_TAG_ID_def lower_def lower_char_def bump_def Let_def)

lemma demo_run:
  "\<exists>st. classify 50 demo_profiles = Inr (demo_window, demo_dict, st)
      \<and> only_7s1 st = [JStr ''a@x.org''] \<and> only_7s2 st = [JStr ''b@x.org'']
      \<and> both st = [JStr ''c@x.org''] \<and> emails_with_multiple_profiles st = 1
      \<and> profiles_in_both_category st = 2"
  using demo_categorize by (auto simp: classify_def demo_window_eq demo_dict_eq)



lemma grouped_ab_profiles:
  "grouped users d \<Longrightarrow> kv \<in> set d \<Longrightarrow>
   ab_profiles kv = length (profiles_of G7S1 (fst kv) users) + length (profiles_of G7S2 (fst kv) users)"
  by (simp add: ab_profiles_def grouped_snd)



lemma length_shuffle_loop: "length (shuffle_loop rnd p i xs) = length xs"
  by (induction i arbitrary: p xs) (simp_all add: Let_def)

lemma length_shuffle: "length (shuffle rnd p xs) = length xs"
  by (simp add: shuffle_def length_shuffle_loop)

lemma mset_shuffle_loop: "i < length xs \<Longrightarrow> mset (shuffle_loop rnd p i xs) = mset xs"
proof (induction i arbitrary: p xs)
  case 0
  then show ?case by simp
next
  case (Suc i)
  let ?j = "rnd p mod (Suc i + 1)"
  have "?j < Suc i + 1" by (rule mod_less_divisor) simp
  with Suc.prems have j: "?j < length xs" by linarith
  have "mset (xs[Suc i := xs ! ?j, ?j := xs ! Suc i]) = mset xs"
    using Suc.prems j by (simp add: mset_swap)
  moreover have "i < length (xs[Suc i := xs ! ?j, ?j := xs ! Suc i])"
    using Suc.prems by simp
  ultimately show ?case using Suc.IH by (simp add: Let_def)
qed

lemma mset_shuffle: "mset (shuffle rnd p xs) = mset xs"
proof (cases xs)
  case Nil
  then show ?thesis by (simp add: shuffle_def)
next
  case (Cons x xs')
  then show ?thesis by (simp add: shuffle_def mset_shuffle_loop)
qed

lemma set_shuffle: "set (shuffle rnd p xs) = set xs"
  using mset_shuffle[of rnd p xs] by (metis set_mset_mset)

lemma sum_list_ge_twice:
  "\<forall>x\<in>set xs. 2 \<le> f x \<Longrightarrow> 2 * length xs \<le> sum_list (map f xs)"
  by (induction xs) auto
















lemma max_rank_loop_Inr:
  "max_rank_loop b m users = Inr r \<Longrightarrow>
   (\<forall>u\<in>set users. get_subscription_rank u b = Inr (profile_rank b u))
   \<and> r = Max (insert m (profile_rank b ` set users))"
proof (induction users arbitrary: m)
  case Nil
  then show ?case by simp
next
  case (Cons u users)
  from Cons.prems obtain x where x: "get_subscription_rank u b = Inr x"
    and rest: "max_rank_loop b (max m x) users = Inr r"
    by (auto simp: bind_r_eq_Inr)
  from x have px: "profile_rank b u = x" by (simp add: profile_rank_def)
  have all: "\<forall>u\<in>set (u # users). get_subscription_rank u b = Inr (profile_rank b u)"
    using Cons.IH[OF rest] x px by simp
  from max_rank_loop_Max[of "u # users" b "profile_rank b" m] all Cons.prems
  show ?case by simp
qed

lemma get_highest_subscription_Inr:
  assumes "get_highest_subscription us1 us2 = Inr r"
  shows "(\<forall>u\<in>set us1. get_subscription_rank u False = Inr (profile_rank False u))
       \<and> (\<forall>u\<in>set us2. get_subscription_rank u True = Inr (profile_rank True u))
       \<and> r = Max (insert 0 (profile_rank False ` set us1 \<union> profile_rank True ` set us2))"
proof -
  from assms obtain m where 1: "max_rank_loop False 0 us1 = Inr m"
    and 2: "max_rank_loop True m us2 = Inr r"
    by (auto simp: get_highest_subscription_def bind_r_eq_Inr)
  note a = max_rank_loop_Inr[OF 1] and b = max_rank_loop_Inr[OF 2]
  have "Max (insert (Max (insert 0 (profile_rank False ` set us1))) (profile_rank True ` set us2))
        = Max (insert 0 (profile_rank False ` set us1 \<union> profile_rank True ` set us2))"
    by (rule Max_insert_Max) simp_all
  with a b show ?thesis by simp
qed

lemma any_fee_waiver_Inr:
  "any_fee_waiver users = Inr w \<Longrightarrow> w = (\<exists>u\<in>set users. is_fee_waiver u = Inr True)"
  by (induction users) (auto simp: bind_r_eq_Inr split: if_splits)

lemma bump_apply:
  "bump c s w f c' s' k' =
     f c' s' k' + (if c' = c \<and> s' = s \<and> k' = (if w then ''fee_waiver'' else ''regular'') then 1 else 0)"
  by (simp add: bump_def Let_def)

lemma categorize_email_other:
  "categorize_email st (email, g\<lparr>uOther := others\<rparr>) = categorize_email st (email, g)"
  by (simp add: categorize_email_def cong: if_cong)

lemma categorize_email_tier:
  assumes "categorize_email st kv = Inr st'"
  shows "get_highest_subscription (u7S1 (snd kv)) (u7S2 (snd kv)) = Inr (group_tier (snd kv))"
    and "any_fee_waiver (u7S1 (snd kv) @ u7S2 (snd kv)) = Inr (group_waiver (snd kv))"
proof -
  from assms obtain r w where r: "get_highest_subscription (u7S1 (snd kv)) (u7S2 (snd kv)) = Inr r"
    and w: "any_fee_waiver (u7S1 (snd kv) @ u7S2 (snd kv)) = Inr w"
    by (auto simp: categorize_email_def Let_def bind_r_eq_Inr)
  from get_highest_subscription_Inr[OF r] r
  show "get_highest_subscription (u7S1 (snd kv)) (u7S2 (snd kv)) = Inr (group_tier (snd kv))"
    by (simp add: group_tier_def)
  from any_fee_waiver_Inr[OF w] w
  show "any_fee_waiver (u7S1 (snd kv) @ u7S2 (snd kv)) = Inr (group_waiver (snd kv))"
    by (simp add: group_waiver_def)
qed

lemma categorize_email_counts:
  assumes "categorize_email st kv = Inr st'"
  shows "subscription_counts st' c s k =
           subscription_counts st c s k + (if in_bucket c kv \<and> cell kv s k then 1 else 0)"
proof -
  note t = categorize_email_tier[OF assms]
  show ?thesis
  proof (cases "u7S1 (snd kv) = []")
    case e1: True
    show ?thesis
    proof (cases "u7S2 (snd kv) = []")
      case True
      with e1 assms t show ?thesis
        by (auto simp: categorize_email_def Let_def in_bucket_def is_only_7s2_def
            is_only_7s1_def is_both_def)
    next
      case False
      with e1 assms t show ?thesis
        by (cases "1 < length (u7S2 (snd kv))")
           (auto simp: categorize_email_def Let_def in_bucket_def is_only_7s2_def
            is_only_7s1_def is_both_def bump_apply cell_def)
    qed
  next
    case n1: False
    show ?thesis
    proof (cases "u7S2 (snd kv) = []")
      case True
      with n1 assms t show ?thesis
        by (cases "1 < length (u7S1 (snd kv))")
           (auto simp: categorize_email_def Let_def in_bucket_def is_only_7s2_def
            is_only_7s1_def is_both_def bump_apply cell_def bind_r_eq_Inr)
    next
      case False
      with n1 assms t show ?thesis
        by (cases "1 < length (u7S1 (snd kv)) + length (u7S2 (snd kv))")
           (auto simp: categorize_email_def Let_def in_bucket_def is_only_7s2_def
            is_only_7s1_def is_both_def bump_apply cell_def)
    qed
  qed
qed

lemma categorize_counts:
  "categorize st d = Inr st' \<Longrightarrow>
   subscription_counts st' c s k =
     subscription_counts st c s k + length (filter (\<lambda>kv. in_bucket c kv \<and> cell kv s k) d)"
proof (induction d arbitrary: st)
  case Nil
  then show ?case by simp
next
  case (Cons kv d)
  from Cons.prems obtain st1 where s: "categorize_email st kv = Inr st1"
    and r: "categorize st1 d = Inr st'"
    by (auto simp: bind_r_eq_Inr)
  from Cons.IH[OF r] categorize_email_counts[OF s, of c s k] show ?case by simp
qed

lemma categorize_tiers:
  "categorize st d = Inr st' \<Longrightarrow> kv \<in> set d \<Longrightarrow>
   get_highest_subscription (u7S1 (snd kv)) (u7S2 (snd kv)) = Inr (group_tier (snd kv))
   \<and> any_fee_waiver (u7S1 (snd kv) @ u7S2 (snd kv)) = Inr (group_waiver (snd kv))"
proof (induction d arbitrary: st)
  case Nil
  then show ?case by simp
next
  case (Cons a d)
  from Cons.prems(1) obtain st1 where s: "categorize_email st a = Inr st1"
    and r: "categorize st1 d = Inr st'"
    by (auto simp: bind_r_eq_Inr)
  from Cons.prems(2) have "kv = a \<or> kv \<in> set d" by auto
  then show ?case
  proof
    assume "kv = a"
    with categorize_email_tier[OF s] show ?thesis by simp
  next
    assume "kv \<in> set d"
    with Cons.IH[OF r] show ?thesis by simp
  qed
qed

lemma grouped_tier:
  "grouped users d \<Longrightarrow> kv \<in> set d \<Longrightarrow>
   group_tier (snd kv) = email_tier (fst kv) users
   \<and> group_waiver (snd kv) = email_waiver (fst kv) users"
  by (simp add: group_tier_def email_tier_def group_waiver_def email_waiver_def grouped_snd)

lemma bucket_table:
  assumes "classify t all_users = Inr (users, d, st)"
  shows "subscription_counts st ''only_7s1'' s k =
           length (filter (\<lambda>e. rank_to_subscription (email_tier e users) = s
                              \<and> k = (if email_waiver e users then ''fee_waiver'' else ''regular''))
                          (only_7s1 st))"
    and "subscription_counts st ''only_7s2'' s k =
           length (filter (\<lambda>e. rank_to_subscription (email_tier e users) = s
                              \<and> k = (if email_waiver e users then ''fee_waiver'' else ''regular''))
                          (only_7s2 st))"
    and "subscription_counts st ''both'' s k =
           length (filter (\<lambda>e. rank_to_subscription (email_tier e users) = s
                              \<and> k = (if email_waiver e users then ''fee_waiver'' else ''regular''))
                          (both st))"
proof -
  note f = classify_facts[OF assms]
  from classify_Inr[OF assms] have c: "categorize init_state d = Inr st" by simp
  have tab: "subscription_counts st c' s k = length (filter (\<lambda>kv. in_bucket c' kv \<and> cell kv s k) d)"
    for c'
    using categorize_counts[OF c, of c' s k] by (simp add: init_state_def)
  have conv: "length (filter (\<lambda>kv. P kv \<and> cell kv s k) d) =
        length (filter (\<lambda>e. rank_to_subscription (email_tier e users) = s
                              \<and> k = (if email_waiver e users then ''fee_waiver'' else ''regular''))
                       (map fst (filter P d)))" for P
  proof -
    have "filter (\<lambda>kv. P kv \<and> cell kv s k) d =
          filter (\<lambda>kv. P kv \<and> (rank_to_subscription (email_tier (fst kv) users) = s
                              \<and> k = (if email_waiver (fst kv) users then ''fee_waiver'' else ''regular''))) d"
      by (rule filter_cong) (auto simp: cell_def grouped_tier[OF f(1)])
    then show ?thesis
      by (simp add: filter_map comp_def conj_commute)
  qed
  show "subscription_counts st ''only_7s1'' s k =
           length (filter (\<lambda>e. rank_to_subscription (email_tier e users) = s
                              \<and> k = (if email_waiver e users then ''fee_waiver'' else ''regular''))
                          (only_7s1 st))"
    using tab[of "''only_7s1''"] conv[of is_only_7s1] by (simp add: in_bucket_def f)
  show "subscription_counts st ''only_7s2'' s k =
           length (filter (\<lambda>e. rank_to_subscription (email_tier e users) = s
                              \<and> k = (if email_waiver e users then ''fee_waiver'' else ''regular''))
                          (only_7s2 st))"
    using tab[of "''only_7s2''"] conv[of is_only_7s2] by (simp add: in_bucket_def f)
  show "subscription_counts st ''both'' s k =
           length (filter (\<lambda>e. rank_to_subscription (email_tier e users) = s
                              \<and> k = (if email_waiver e users then ''fee_waiver'' else ''regular''))
                          (both st))"
    using tab[of "''both''"] conv[of is_both] by (simp add: in_bucket_def f)
qed

lemma filter_two_kinds:
  "k1 \<noteq> k2 \<Longrightarrow>
   length (filter (\<lambda>e. P e \<and> k1 = (if w e then k2 else k1)) xs)
   + length (filter (\<lambda>e. P e \<and> k2 = (if w e then k2 else k1)) xs)
   = length (filter P xs)"
  by (induction xs) auto

lemma email_waiver_evidence:
  assumes "\<forall>u\<in>set users. tags_ok u \<and> attributes_dict u"
  shows "email_waiver e users =
         (\<exists>u\<in>set (profiles_of G7S1 e users) \<union> set (profiles_of G7S2 e users). waiver_evidence u)"
proof -
  have "is_fee_waiver u = Inr (waiver_evidence u)"
    if "u \<in> set (profiles_of G7S1 e users) \<union> set (profiles_of G7S2 e users)" for u
    using that assms by (auto simp: profiles_of_def is_fee_waiver_evidence)
  then show ?thesis by (auto simp: email_waiver_def)
qed

lemma kind_fee_waiver:
  "(\<lambda>e. P e \<and> ''fee_waiver'' = (if w e then ''fee_waiver'' else ''regular'')) = (\<lambda>e. P e \<and> w e)"
  by (auto simp: fun_eq_iff)

lemma kind_regular:
  "(\<lambda>e. P e \<and> ''regular'' = (if w e then ''fee_waiver'' else ''regular'')) = (\<lambda>e. P e \<and> \<not> w e)"
  by (auto simp: fun_eq_iff)

lemmas tier_defs = email_tier_def profile_rank_def profiles_of_def has_email_def email_of_def
  same_key_def user_group_def startswith_def get_subscription_rank_def SUBSCRIPTION_RANKS_def
  rank_to_subscription_def

lemmas waiver_defs = tags_ok_def attributes_dict_def is_dict_def waiver_evidence_def tag_ids_def
  purchase_text_def FEE_WAIVER_TAG_ID_def lower_def lower_char_def sublist_code(3)

section \<open>The subscription resolver\<close>

text \<open>
  C3, as stated: a raw value outside the product line's own vocabulary resolves to 0.
  It does not: the 7S1 profile whose \<open>lsat_course\<close> is \<open>live\<close>, a word of the 7S2
  half only, resolves to 3.
\<close>

theorem other_vocabulary_resolves:
  "map_of (own_table False) ''live'' = None
   \<and> get_subscription_rank live_7s1_profile False = Inr 3"
  by (simp add: own_table_def ranks_7s1_def live_7s1_profile_def get_subscription_rank_def
      SUBSCRIPTION_RANKS_def)

text \<open>
  C3, amended: the resolver reads the raw field of the profile's own product line
  (\<open>lsat_course\<close> for 7S1, \<open>sub\<close> for 7S2) and looks it up in the one table shared by both
  product lines; a string resolves to its rank in the whole table, whichever half holds
  it, and to 0 when the table does not hold it; an absent, null or empty field and a
  scalar that is not a string resolve to 0.
\<close>

theorem get_subscription_rank_shared_table:
  assumes "py_get user ''custom_attributes'' (JObj []) = Inr (JObj attrs)"
  shows "(map_of attrs (raw_field is_7s2) = Some (JStr s) \<longrightarrow>
            get_subscription_rank user is_7s2 =
              Inr (case map_of (ranks_7s2 @ ranks_7s1) s of Some r \<Rightarrow> r | None \<Rightarrow> 0))
       \<and> (map_of attrs (raw_field is_7s2) \<in> {None, Some JNull, Some (JStr [])} \<longrightarrow>
            get_subscription_rank user is_7s2 = Inr 0)
       \<and> (map_of attrs (raw_field is_7s2) \<in> {Some (JInt n), Some (JBool b)} \<longrightarrow>
            get_subscription_rank user is_7s2 = Inr 0)"
  using assms
  by (auto simp: get_subscription_rank_def raw_field_def SUBSCRIPTION_RANKS_split
      ranks_7s1_def ranks_7s2_def)

theorem get_subscription_rank_shared_table_witness:
  "get_subscription_rank live_7s1_profile False = Inr 3
   \<and> get_subscription_rank (JObj [(''custom_attributes'', JObj [(''sub'', JStr ''Coaching'')])]) True
       = Inr 4
   \<and> get_subscription_rank (JObj [(''custom_attributes'', JObj [(''sub'', JStr ''premium'')])]) True
       = Inr 0
   \<and> get_subscription_rank (JObj []) True = Inr 0
   \<and> get_subscription_rank (JObj [(''custom_attributes'', JObj [(''lsat_course'', JInt 7)])]) False
       = Inr 0"
  using
    get_subscription_rank_shared_table
      [of live_7s1_profile "[(''lsat_course'', JStr ''live'')]" False "''live''" 0 False]
    get_subscription_rank_shared_table
      [of "JObj [(''custom_attributes'', JObj [(''sub'', JStr ''Coaching'')])]"
          "[(''sub'', JStr ''Coaching'')]" True "''Coaching''" 0 False]
    get_subscription_rank_shared_table
      [of "JObj [(''custom_attributes'', JObj [(''sub'', JStr ''premium'')])]"
          "[(''sub'', JStr ''premium'')]" True "''premium''" 0 False]
    get_subscription_rank_shared_table [of "JObj []" "[]" True "''x''" 0 False]
    get_subscription_rank_shared_table
      [of "JObj [(''custom_attributes'', JObj [(''lsat_course'', JInt 7)])]"
          "[(''lsat_course'', JInt 7)]" False "''x''" 7 False]
  by (simp add: live_7s1_profile_def raw_field_def ranks_7s1_def ranks_7s2_def)

text \<open>
  C4: the tier of an email group is the maximum of the single-profile tiers of its 7S1
  and 7S2 profiles, and 0 when there are none or all are 0; the profiles filed under
  Other play no part. First of \<open>get_highest_subscription\<close> itself (\<open>ra\<close> and \<open>rb\<close>
  name what the resolver returns); then of the categorisation loop, whose step does not
  depend on the Other list; then of a whole run: the tier the loop resolves for every
  email of the grouped map is \<open>email_tier\<close>, the maximum over the 7S1 and 7S2 profiles
  of that email in the window, and each bucket's breakdown counts, under a subscription,
  the emails of the bucket whose \<open>email_tier\<close> has that name.
\<close>

theorem highest_subscription_is_max:
  "((\<forall>u\<in>set us_a. get_subscription_rank u False = Inr (ra u))
     \<and> (\<forall>u\<in>set us_b. get_subscription_rank u True = Inr (rb u)) \<longrightarrow>
       get_highest_subscription us_a us_b = Inr (Max (insert 0 (ra ` set us_a \<union> rb ` set us_b)))
       \<and> ((\<forall>u\<in>set us_a. ra u = 0) \<and> (\<forall>u\<in>set us_b. rb u = 0) \<longrightarrow>
            get_highest_subscription us_a us_b = Inr 0))
   \<and> categorize_email st_in (email, g\<lparr>uOther := others\<rparr>) = categorize_email st_in (email, g)
   \<and> (classify t all_users = Inr (users, d, st) \<longrightarrow>
        (\<forall>kv\<in>set d. get_highest_subscription (u7S1 (snd kv)) (u7S2 (snd kv)) =
                        Inr (email_tier (fst kv) users))
        \<and> (\<forall>s. subscription_counts st ''only_7s1'' s ''regular''
                 + subscription_counts st ''only_7s1'' s ''fee_waiver''
               = length (filter (\<lambda>e. rank_to_subscription (email_tier e users) = s) (only_7s1 st)))
        \<and> (\<forall>s. subscription_counts st ''only_7s2'' s ''regular''
                 + subscription_counts st ''only_7s2'' s ''fee_waiver''
               = length (filter (\<lambda>e. rank_to_subscription (email_tier e users) = s) (only_7s2 st)))
        \<and> (\<forall>s. subscription_counts st ''both'' s ''regular''
                 + subscription_counts st ''both'' s ''fee_waiver''
               = length (filter (\<lambda>e. rank_to_subscription (email_tier e users) = s) (both st)))
        \<and> (\<forall>e. (\<forall>u\<in>set (profiles_of G7S1 e users). profile_rank False u = 0)
                 \<and> (\<forall>u\<in>set (profiles_of G7S2 e users). profile_rank True u = 0) \<longrightarrow>
                 email_tier e users = 0))"
proof (intro conjI impI allI ballI)
  assume a: "(\<forall>u\<in>set us_a. get_subscription_rank u False = Inr (ra u))
     \<and> (\<forall>u\<in>set us_b. get_subscription_rank u True = Inr (rb u))"
  let ?A = "ra ` set us_a" and ?B = "rb ` set us_b"
  have 1: "max_rank_loop False 0 us_a = Inr (Max (insert 0 ?A))"
    using a by (intro max_rank_loop_Max) simp
  have 2: "max_rank_loop True (Max (insert 0 ?A)) us_b = Inr (Max (insert (Max (insert 0 ?A)) ?B))"
    using a by (intro max_rank_loop_Max) simp
  have 3: "Max (insert (Max (insert 0 ?A)) ?B) = Max (insert 0 (?A \<union> ?B))"
    by (rule Max_insert_Max) simp_all
  show eq: "get_highest_subscription us_a us_b = Inr (Max (insert 0 (?A \<union> ?B)))"
    by (simp add: get_highest_subscription_def 1 2 3)
  assume z: "(\<forall>u\<in>set us_a. ra u = 0) \<and> (\<forall>u\<in>set us_b. rb u = 0)"
  then have "insert 0 (?A \<union> ?B) = {0}" by auto
  with eq show "get_highest_subscription us_a us_b = Inr 0" by simp
next
  show "categorize_email st_in (email, g\<lparr>uOther := others\<rparr>) = categorize_email st_in (email, g)"
    by (rule categorize_email_other)
next
  fix kv
  assume c: "classify t all_users = Inr (users, d, st)" and kv: "kv \<in> set d"
  from classify_Inr[OF c] have "categorize init_state d = Inr st" by simp
  from categorize_tiers[OF this kv] grouped_tier[OF classify_facts(1)[OF c] kv]
  show "get_highest_subscription (u7S1 (snd kv)) (u7S2 (snd kv)) = Inr (email_tier (fst kv) users)"
    by simp
next
  fix s
  assume c: "classify t all_users = Inr (users, d, st)"
  show "subscription_counts st ''only_7s1'' s ''regular''
        + subscription_counts st ''only_7s1'' s ''fee_waiver''
      = length (filter (\<lambda>e. rank_to_subscription (email_tier e users) = s) (only_7s1 st))"
    unfolding bucket_table[OF c] by (rule filter_two_kinds) simp
next
  fix s
  assume c: "classify t all_users = Inr (users, d, st)"
  show "subscription_counts st ''only_7s2'' s ''regular''
        + subscription_counts st ''only_7s2'' s ''fee_waiver''
      = length (filter (\<lambda>e. rank_to_subscription (email_tier e users) = s) (only_7s2 st))"
    unfolding bucket_table[OF c] by (rule filter_two_kinds) simp
next
  fix s
  assume c: "classify t all_users = Inr (users, d, st)"
  show "subscription_counts st ''both'' s ''regular''
        + subscription_counts st ''both'' s ''fee_waiver''
      = length (filter (\<lambda>e. rank_to_subscription (email_tier e users) = s) (both st))"
    unfolding bucket_table[OF c] by (rule filter_two_kinds) simp
next
  fix e
  assume "(\<forall>u\<in>set (profiles_of G7S1 e users). profile_rank False u = 0)
          \<and> (\<forall>u\<in>set (profiles_of G7S2 e users). profile_rank True u = 0)"
  then have "insert 0 (profile_rank False ` set (profiles_of G7S1 e users)
                    \<union> profile_rank True ` set (profiles_of G7S2 e users)) = {0}"
    by auto
  then show "email_tier e users = 0" unfolding email_tier_def by (simp only: Max_singleton)
qed

theorem highest_subscription_is_max_witness:
  "\<exists>st. classify 50 demo_profiles = Inr (demo_window, demo_dict, st)
      \<and> get_highest_subscription [demo_c1] [demo_c2] = Inr 4
      \<and> get_highest_subscription [demo_o1] [] = Inr 0
      \<and> profile_rank False demo_a2 = 4 \<and> profile_rank True demo_a2 = 5
      \<and> email_tier (JStr ''a@x.org'') demo_window = 3
      \<and> subscription_counts st ''only_7s1'' ''Live'' ''regular''
          + subscription_counts st ''only_7s1'' ''Live'' ''fee_waiver'' = 1
      \<and> subscription_counts st ''only_7s1'' ''Coach'' ''regular''
          + subscription_counts st ''only_7s1'' ''Coach'' ''fee_waiver'' = 0
      \<and> subscription_counts st ''only_7s1'' ''Admin'' ''regular''
          + subscription_counts st ''only_7s1'' ''Admin'' ''fee_waiver'' = 0
      \<and> email_tier (JStr ''c@x.org'') demo_window = 4
      \<and> subscription_counts st ''both'' ''Coach'' ''regular''
          + subscription_counts st ''both'' ''Coach'' ''fee_waiver'' = 1
      \<and> email_tier (JStr ''o@x.org'') demo_window = 0"
proof -
  from demo_run obtain st where
    c: "classify 50 demo_profiles = Inr (demo_window, demo_dict, st)"
    and l: "only_7s1 st = [JStr ''a@x.org'']" "both st = [JStr ''c@x.org'']"
    by blast
  have r: "\<forall>u\<in>set [demo_c1]. get_subscription_rank u False = Inr ((\<lambda>u. 4) u)"
    "\<forall>u\<in>set [demo_c2]. get_subscription_rank u True = Inr ((\<lambda>u. 2) u)"
    by (simp_all add: demo_defs get_subscription_rank_def SUBSCRIPTION_RANKS_def)
  have ranks: "profile_rank False demo_a2 = 4" "profile_rank True demo_a2 = 5"
    by (simp_all add: demo_defs profile_rank_def get_subscription_rank_def SUBSCRIPTION_RANKS_def)
  have ta: "email_tier (JStr ''a@x.org'') demo_window = 3"
    and tc: "email_tier (JStr ''c@x.org'') demo_window = 4"
    by (simp_all add: demo_defs tier_defs)
  have o: "(\<forall>u\<in>set (profiles_of G7S1 (JStr ''o@x.org'') demo_window). profile_rank False u = 0)
         \<and> (\<forall>u\<in>set (profiles_of G7S2 (JStr ''o@x.org'') demo_window). profile_rank True u = 0)"
    by (simp add: demo_defs tier_defs)
  note th = highest_subscription_is_max
    [where us_a = "[demo_c1]" and ra = "\<lambda>u. 4" and us_b = "[demo_c2]" and rb = "\<lambda>u. 2"
       and t = 50 and all_users = demo_profiles and users = demo_window and d = demo_dict
       and st = st]
  from th r have hc: "get_highest_subscription [demo_c1] [demo_c2] = Inr 4" by simp
  have r0: "\<forall>u\<in>set [demo_o1]. get_subscription_rank u False = Inr ((\<lambda>u. 0) u)"
    by (simp add: demo_defs get_subscription_rank_def)
  from r0 highest_subscription_is_max
    [where us_a = "[demo_o1]" and ra = "\<lambda>u. 0" and us_b = "[]" and rb = "\<lambda>u. 0"]
  have h0: "get_highest_subscription [demo_o1] [] = Inr 0" by simp
  from th c have
    t1: "\<And>s. subscription_counts st ''only_7s1'' s ''regular''
             + subscription_counts st ''only_7s1'' s ''fee_waiver''
           = length (filter (\<lambda>e. rank_to_subscription (email_tier e demo_window) = s) (only_7s1 st))"
    and t3: "\<And>s. subscription_counts st ''both'' s ''regular''
             + subscription_counts st ''both'' s ''fee_waiver''
           = length (filter (\<lambda>e. rank_to_subscription (email_tier e demo_window) = s) (both st))"
    and tz: "\<And>e. (\<forall>u\<in>set (profiles_of G7S1 e demo_window). profile_rank False u = 0)
                 \<and> (\<forall>u\<in>set (profiles_of G7S2 e demo_window). profile_rank True u = 0) \<Longrightarrow>
                 email_tier e demo_window = 0"
    by blast+
  from tz[OF o] have to: "email_tier (JStr ''o@x.org'') demo_window = 0" .
  from c hc h0 ranks ta tc to t1[of "''Live''"] t1[of "''Coach''"] t1[of "''Admin''"] t3[of "''Coach''"]
  show ?thesis
    by (simp add: l rank_to_subscription_def)
qed

section \<open>The fee-waiver detector\<close>

text \<open>
  C5: a profile is a fee waiver iff one of its tags has the id \<open>11173348\<close> or its
  purchase names, in lower case, contain \<open>waiver\<close> (\<open>waiver_evidence\<close>); a profile
  without tags and without purchase text is not a waiver. The flag of an email group is
  the disjunction over its 7S1 and 7S2 profiles: the step of the categorisation loop does
  not depend on the Other list, the flag the loop computes for every email of the grouped
  map is \<open>email_waiver\<close>, and each bucket's breakdown counts under \<open>fee_waiver\<close> the
  emails of the bucket with the flag and under \<open>regular\<close> those without.
\<close>

theorem fee_waiver_flag:
  "(tags_ok user \<and> attributes_dict user \<longrightarrow> is_fee_waiver user = Inr (waiver_evidence user))
   \<and> ((\<forall>u\<in>set (u7S1 g @ u7S2 g). tags_ok u \<and> attributes_dict u) \<longrightarrow>
        any_fee_waiver (u7S1 g @ u7S2 g) =
          Inr (\<exists>u\<in>set (u7S1 g) \<union> set (u7S2 g). waiver_evidence u))
   \<and> (tags_ok user \<and> attributes_dict user \<and> tag_ids user = [] \<and> purchase_text user = [] \<longrightarrow>
        is_fee_waiver user = Inr False)
   \<and> categorize_email st_in (email, g\<lparr>uOther := others\<rparr>) = categorize_email st_in (email, g)
   \<and> (classify t all_users = Inr (users, d, st) \<longrightarrow>
        (\<forall>kv\<in>set d. any_fee_waiver (u7S1 (snd kv) @ u7S2 (snd kv)) =
                        Inr (email_waiver (fst kv) users))
        \<and> (\<forall>s. subscription_counts st ''only_7s1'' s ''fee_waiver''
               = length (filter (\<lambda>e. rank_to_subscription (email_tier e users) = s
                                    \<and> email_waiver e users) (only_7s1 st))
              \<and> subscription_counts st ''only_7s1'' s ''regular''
               = length (filter (\<lambda>e. rank_to_subscription (email_tier e users) = s
                                    \<and> \<not> email_waiver e users) (only_7s1 st))
              \<and> subscription_counts st ''only_7s2'' s ''fee_waiver''
               = length (filter (\<lambda>e. rank_to_subscription (email_tier e users) = s
                                    \<and> email_waiver e users) (only_7s2 st))
              \<and> subscription_counts st ''only_7s2'' s ''regular''
               = length (filter (\<lambda>e. rank_to_subscription (email_tier e users) = s
                                    \<and> \<not> email_waiver e users) (only_7s2 st))
              \<and> subscription_counts st ''both'' s ''fee_waiver''
               = length (filter (\<lambda>e. rank_to_subscription (email_tier e users) = s
                                    \<and> email_waiver e users) (both st))
              \<and> subscription_counts st ''both'' s ''regular''
               = length (filter (\<lambda>e. rank_to_subscription (email_tier e users) = s
                                    \<and> \<not> email_waiver e users) (both st)))
        \<and> ((\<forall>u\<in>set users. tags_ok u \<and> attributes_dict u) \<longrightarrow>
             (\<forall>e. email_waiver e users =
                   (\<exists>u\<in>set (profiles_of G7S1 e users) \<union> set (profiles_of G7S2 e users).
                      waiver_evidence u))))"
proof -
  have p1: "tags_ok user \<and> attributes_dict user \<longrightarrow> is_fee_waiver user = Inr (waiver_evidence user)"
    by (simp add: is_fee_waiver_evidence)
  have p2: "(\<forall>u\<in>set (u7S1 g @ u7S2 g). tags_ok u \<and> attributes_dict u) \<longrightarrow>
        any_fee_waiver (u7S1 g @ u7S2 g) =
          Inr (\<exists>u\<in>set (u7S1 g) \<union> set (u7S2 g). waiver_evidence u)"
  proof
    assume "\<forall>u\<in>set (u7S1 g @ u7S2 g). tags_ok u \<and> attributes_dict u"
    then have "\<forall>u\<in>set (u7S1 g @ u7S2 g). is_fee_waiver u = Inr (waiver_evidence u)"
      by (simp add: is_fee_waiver_evidence)
    then have "any_fee_waiver (u7S1 g @ u7S2 g) =
               Inr (\<exists>u\<in>set (u7S1 g @ u7S2 g). waiver_evidence u)"
      by (rule any_fee_waiver_exists)
    then show "any_fee_waiver (u7S1 g @ u7S2 g) =
          Inr (\<exists>u\<in>set (u7S1 g) \<union> set (u7S2 g). waiver_evidence u)"
      by simp
  qed
  have p3: "tags_ok user \<and> attributes_dict user \<and> tag_ids user = [] \<and> purchase_text user = [] \<longrightarrow>
        is_fee_waiver user = Inr False"
    by (simp add: is_fee_waiver_evidence waiver_evidence_def lower_Nil)
  have p4: "categorize_email st_in (email, g\<lparr>uOther := others\<rparr>) = categorize_email st_in (email, g)"
    by (rule categorize_email_other)
  have p5: "any_fee_waiver (u7S1 (snd kv) @ u7S2 (snd kv)) = Inr (email_waiver (fst kv) users)"
    if c: "classify t all_users = Inr (users, d, st)" and kv: "kv \<in> set d" for kv
  proof -
    from classify_Inr[OF c] have "categorize init_state d = Inr st" by simp
    from categorize_tiers[OF this kv] grouped_tier[OF classify_facts(1)[OF c] kv]
    show ?thesis by simp
  qed
  have p6: "subscription_counts st ''only_7s1'' s ''fee_waiver''
               = length (filter (\<lambda>e. rank_to_subscription (email_tier e users) = s
                                    \<and> email_waiver e users) (only_7s1 st))
              \<and> subscription_counts st ''only_7s1'' s ''regular''
               = length (filter (\<lambda>e. rank_to_subscription (email_tier e users) = s
                                    \<and> \<not> email_waiver e users) (only_7s1 st))
              \<and> subscription_counts st ''only_7s2'' s ''fee_waiver''
               = length (filter (\<lambda>e. rank_to_subscription (email_tier e users) = s
                                    \<and> email_waiver e users) (only_7s2 st))
              \<and> subscription_counts st ''only_7s2'' s ''regular''
               = length (filter (\<lambda>e. rank_to_subscription (email_tier e users) = s
                                    \<and> \<not> email_waiver e users) (only_7s2 st))
              \<and> subscription_counts st ''both'' s ''fee_waiver''
               = length (filter (\<lambda>e. rank_to_subscription (email_tier e users) = s
                                    \<and> email_waiver e users) (both st))
              \<and> subscription_counts st ''both'' s ''regular''
               = length (filter (\<lambda>e. rank_to_subscription (email_tier e users) = s
                                    \<and> \<not> email_waiver e users) (both st))"
    if c: "classify t all_users = Inr (users, d, st)" for s
    unfolding bucket_table[OF c] kind_fee_waiver kind_regular by simp
  have p7: "email_waiver e users =
                   (\<exists>u\<in>set (profiles_of G7S1 e users) \<union> set (profiles_of G7S2 e users).
                      waiver_evidence u)"
    if "\<forall>u\<in>set users. tags_ok u \<and> attributes_dict u" for e
    using that by (rule email_waiver_evidence)
  from p1 p2 p3 p4 p5 p6 p7 show ?thesis by blast
qed

theorem fee_waiver_flag_witness:
  "\<exists>st. classify 50 demo_profiles = Inr (demo_window, demo_dict, st)
      \<and> is_fee_waiver demo_b1 = Inr True
      \<and> is_fee_waiver waiver_text_profile = Inr True
      \<and> is_fee_waiver demo_a1 = Inr False
      \<and> is_fee_waiver demo_o1 = Inr False
      \<and> is_fee_waiver demo_a2 = Inr True
      \<and> any_fee_waiver [demo_c1, demo_c2] = Inr False
      \<and> any_fee_waiver [demo_a1, demo_b1] = Inr True
      \<and> \<not> email_waiver (JStr ''a@x.org'') demo_window
      \<and> email_waiver (JStr ''b@x.org'') demo_window
      \<and> subscription_counts st ''only_7s1'' ''Live'' ''regular'' = 1
      \<and> subscription_counts st ''only_7s1'' ''Live'' ''fee_waiver'' = 0
      \<and> subscription_counts st ''only_7s2'' ''Core'' ''fee_waiver'' = 1
      \<and> subscription_counts st ''only_7s2'' ''Core'' ''regular'' = 0"
proof -
  from demo_run obtain st where
    c: "classify 50 demo_profiles = Inr (demo_window, demo_dict, st)"
    and l: "only_7s1 st = [JStr ''a@x.org'']" "only_7s2 st = [JStr ''b@x.org'']"
    by blast
  have ok: "\<forall>u\<in>set demo_window. tags_ok u \<and> attributes_dict u"
    by (simp add: demo_defs tags_ok_def attributes_dict_def is_dict_def)
  have single:
    "is_fee_waiver demo_b1 = Inr True" "is_fee_waiver waiver_text_profile = Inr True"
    "is_fee_waiver demo_a1 = Inr False" "is_fee_waiver demo_o1 = Inr False"
    "is_fee_waiver demo_a2 = Inr True"
    "any_fee_waiver [demo_c1, demo_c2] = Inr False" "any_fee_waiver [demo_a1, demo_b1] = Inr True"
    using
      fee_waiver_flag [where user = demo_b1
        and g = "\<lparr>u7S1 = [demo_c1], u7S2 = [demo_c2], uOther = [demo_a2]\<rparr>"]
      fee_waiver_flag [where user = waiver_text_profile
        and g = "\<lparr>u7S1 = [demo_a1], u7S2 = [demo_b1], uOther = [demo_a2]\<rparr>"]
      fee_waiver_flag [where user = demo_a1]
      fee_waiver_flag [where user = demo_o1]
      fee_waiver_flag [where user = demo_a2]
    by (simp_all add: demo_defs waiver_text_profile_def waiver_defs)
  note th = fee_waiver_flag
    [where t = 50 and all_users = demo_profiles and users = demo_window and d = demo_dict
       and st = st]
  from th c ok have ew: "\<And>e. email_waiver e demo_window =
      (\<exists>u\<in>set (profiles_of G7S1 e demo_window) \<union> set (profiles_of G7S2 e demo_window).
         waiver_evidence u)"
    by blast
  have wa: "\<not> email_waiver (JStr ''a@x.org'') demo_window"
    and wb: "email_waiver (JStr ''b@x.org'') demo_window"
    unfolding ew by (simp_all add: demo_defs tier_defs waiver_defs)
  have ta: "email_tier (JStr ''a@x.org'') demo_window = 3"
    and tb: "email_tier (JStr ''b@x.org'') demo_window = 2"
    by (simp_all add: demo_defs tier_defs)
  from th c have tab: "\<And>s. subscription_counts st ''only_7s1'' s ''fee_waiver''
               = length (filter (\<lambda>e. rank_to_subscription (email_tier e demo_window) = s
                                    \<and> email_waiver e demo_window) (only_7s1 st))
              \<and> subscription_counts st ''only_7s1'' s ''regular''
               = length (filter (\<lambda>e. rank_to_subscription (email_tier e demo_window) = s
                                    \<and> \<not> email_waiver e demo_window) (only_7s1 st))
              \<and> subscription_counts st ''only_7s2'' s ''fee_waiver''
               = length (filter (\<lambda>e. rank_to_subscription (email_tier e demo_window) = s
                                    \<and> email_waiver e demo_window) (only_7s2 st))
              \<and> subscription_counts st ''only_7s2'' s ''regular''
               = length (filter (\<lambda>e. rank_to_subscription (email_tier e demo_window) = s
                                    \<and> \<not> email_waiver e demo_window) (only_7s2 st))"
    by blast
  from c single wa wb tab[of "''Live''"] tab[of "''Core''"] show ?thesis
    by (simp add: l ta tb rank_to_subscription_def)
qed

section \<open>The window filter\<close>

text \<open>
  C10: for a lower bound \<open>t \<ge> 0\<close> the window filter keeps exactly the profiles whose
  last-seen value, 0 when the field is absent, is greater than \<open>t\<close>; a profile without
  the field counts as last seen at 0 and is not kept.
\<close>

theorem window_filter_exact:
  assumes "\<forall>u\<in>set users. timestamp_ok u" and "0 \<le> t"
  shows "accurate_users t users = Inr (filter (\<lambda>u. t < last_seen u) users)
       \<and> (\<forall>kvs. JObj kvs \<in> set users \<and> map_of kvs ''last_seen_at'' = None \<longrightarrow>
             last_seen (JObj kvs) = 0
             \<and> JObj kvs \<notin> set (filter (\<lambda>u. t < last_seen u) users))"
  using assms by (auto simp: accurate_users_filter last_seen_def)

theorem window_filter_exact_witness:
  "accurate_users 5
     [JObj [(''id'', JStr ''p1''), (''last_seen_at'', JInt 9)],
      JObj [(''id'', JStr ''p2'')],
      JObj [(''id'', JStr ''p3''), (''last_seen_at'', JInt 5)]]
   = Inr [JObj [(''id'', JStr ''p1''), (''last_seen_at'', JInt 9)]]
   \<and> last_seen (JObj [(''id'', JStr ''p2'')]) = 0"
  using window_filter_exact
    [of "[JObj [(''id'', JStr ''p1''), (''last_seen_at'', JInt 9)],
          JObj [(''id'', JStr ''p2'')],
          JObj [(''id'', JStr ''p3''), (''last_seen_at'', JInt 5)]]" 5]
  by (simp add: timestamp_ok_def last_seen_def)

section \<open>The buckets\<close>

text \<open>
  C1: every email of the grouped map is in \<open>only_7s1\<close> iff it has at least one 7S1
  profile and no 7S2 profile, in \<open>only_7s2\<close> iff it has at least one 7S2 profile and no
  7S1 profile, in \<open>both\<close> iff it has at least one of each, and in none of the three when
  all its profiles are filed under Other; the three lists share no email and none repeats
  one.
\<close>

theorem buckets_partition:
  assumes "classify t all_users = Inr (users, d, st)" and "e \<in> fst ` set d"
  shows "(e \<in> set (only_7s1 st) \<longleftrightarrow>
            0 < length (profiles_of G7S1 e users) \<and> length (profiles_of G7S2 e users) = 0)
       \<and> (e \<in> set (only_7s2 st) \<longleftrightarrow>
            0 < length (profiles_of G7S2 e users) \<and> length (profiles_of G7S1 e users) = 0)
       \<and> (e \<in> set (both st) \<longleftrightarrow>
            0 < length (profiles_of G7S1 e users) \<and> 0 < length (profiles_of G7S2 e users))
       \<and> ((\<forall>u\<in>set users. has_email e u \<longrightarrow> user_group u = Inr GOther) \<longrightarrow>
            e \<notin> set (only_7s1 st) \<and> e \<notin> set (only_7s2 st) \<and> e \<notin> set (both st))
       \<and> distinct (only_7s1 st @ only_7s2 st @ both st)
       \<and> set (only_7s1 st) \<inter> set (only_7s2 st) = {}
       \<and> set (only_7s1 st) \<inter> set (both st) = {}
       \<and> set (only_7s2 st) \<inter> set (both st) = {}"
proof -
  note f = classify_facts[OF assms(1)]
  from f(1) have dist: "distinct (map fst d)" by (rule grouped_distinct_fst)
  from assms(2) obtain kv where kv: "kv \<in> set d" "fst kv = e" by auto
  note g = grouped_snd[OF f(1) kv(1), unfolded kv(2)]
  have m1: "e \<in> set (only_7s1 st) \<longleftrightarrow> is_only_7s1 kv"
    using fst_filter_mem[OF dist kv(1), of is_only_7s1] by (simp add: f kv)
  have m2: "e \<in> set (only_7s2 st) \<longleftrightarrow> is_only_7s2 kv"
    using fst_filter_mem[OF dist kv(1), of is_only_7s2] by (simp add: f kv)
  have m3: "e \<in> set (both st) \<longleftrightarrow> is_both kv"
    using fst_filter_mem[OF dist kv(1), of is_both] by (simp add: f kv)
  have other: "profiles_of G7S1 e users = [] \<and> profiles_of G7S2 e users = []"
    if "\<forall>u\<in>set users. has_email e u \<longrightarrow> user_group u = Inr GOther"
    using that by (auto simp: profiles_of_def filter_empty_conv)
  have inj: "inj_on fst (set d)" using dist by (simp add: distinct_map)
  have disj: "set (map fst (filter P d)) \<inter> set (map fst (filter Q d)) = {}"
    if "\<And>x. x \<in> set d \<Longrightarrow> \<not> (P x \<and> Q x)" for P Q
  proof -
    have False if a: "x \<in> set d" "P x" "y \<in> set d" "Q y" "fst x = fst y" for x y
    proof -
      from inj a have "x = y" by (auto dest: inj_onD)
      with a \<open>\<And>x. x \<in> set d \<Longrightarrow> \<not> (P x \<and> Q x)\<close> show False by auto
    qed
    then show ?thesis by force
  qed
  have d12: "set (only_7s1 st) \<inter> set (only_7s2 st) = {}"
    unfolding f by (rule disj) (auto simp: is_only_7s1_def is_only_7s2_def)
  have d13: "set (only_7s1 st) \<inter> set (both st) = {}"
    unfolding f by (rule disj) (auto simp: is_only_7s1_def is_both_def)
  have d23: "set (only_7s2 st) \<inter> set (both st) = {}"
    unfolding f by (rule disj) (auto simp: is_only_7s2_def is_both_def)
  have each: "distinct (map fst (filter P d))" for P
    using dist by (rule distinct_map_filter)
  have dall: "distinct (only_7s1 st @ only_7s2 st @ both st)"
    using d12 d13 d23 each[of is_only_7s1] each[of is_only_7s2] each[of is_both]
    by (simp add: f Int_Un_distrib)
  show ?thesis
    using m1 m2 m3 g other d12 d13 d23 dall
    by (auto simp: is_only_7s1_def is_only_7s2_def is_both_def)
qed

theorem buckets_partition_witness:
  "\<exists>st. classify 50 demo_profiles = Inr (demo_window, demo_dict, st)
      \<and> JStr ''a@x.org'' \<in> set (only_7s1 st)
      \<and> 0 < length (profiles_of G7S1 (JStr ''a@x.org'') demo_window)
      \<and> length (profiles_of G7S2 (JStr ''a@x.org'') demo_window) = 0
      \<and> JStr ''c@x.org'' \<in> set (both st)
      \<and> 0 < length (profiles_of G7S2 (JStr ''c@x.org'') demo_window)
      \<and> JStr ''o@x.org'' \<notin> set (only_7s1 st)
      \<and> JStr ''o@x.org'' \<notin> set (only_7s2 st)
      \<and> JStr ''o@x.org'' \<notin> set (both st)
      \<and> distinct (only_7s1 st @ only_7s2 st @ both st)"
proof -
  from demo_run obtain st where
    c: "classify 50 demo_profiles = Inr (demo_window, demo_dict, st)"
    and l: "only_7s1 st = [JStr ''a@x.org'']" "both st = [JStr ''c@x.org'']"
    by blast
  have ma: "JStr ''a@x.org'' \<in> fst ` set demo_dict"
    and mc: "JStr ''c@x.org'' \<in> fst ` set demo_dict"
    and mo: "JStr ''o@x.org'' \<in> fst ` set demo_dict"
    by (simp_all add: demo_dict_def)
  have oth: "\<forall>u\<in>set demo_window. has_email (JStr ''o@x.org'') u \<longrightarrow> user_group u = Inr GOther"
    by (simp add: demo_defs has_email_def email_of_def same_key_def user_group_def)
  from buckets_partition[OF c ma] buckets_partition[OF c mc] buckets_partition[OF c mo] oth l c
  show ?thesis by auto
qed

section \<open>The tallies\<close>






text \<open>
  C7: \<open>total_profiles_in_this_category\<close> of the Both bucket is the sum, over the emails of
  the bucket, of their 7S1 and 7S2 profile counts, and is at least twice the number of
  these emails.
\<close>

theorem both_profile_total:
  assumes "classify t all_users = Inr (users, d, st)"
  shows "total_profiles_in_this_category (result_both (build_result rnd users d st)) =
           sum_list (map (\<lambda>e. length (profiles_of G7S1 e users) + length (profiles_of G7S2 e users))
                         (both st))
       \<and> count_emails (result_both (build_result rnd users d st)) = length (both st)
       \<and> 2 * count_emails (result_both (build_result rnd users d st))
           \<le> total_profiles_in_this_category (result_both (build_result rnd users d st))"
proof -
  note f = classify_facts[OF assms]
  have 1: "sum_list (map ab_profiles (filter is_both d)) =
        sum_list (map (\<lambda>e. length (profiles_of G7S1 e users) + length (profiles_of G7S2 e users))
                      (map fst (filter is_both d)))"
    unfolding map_map comp_def
    by (rule arg_cong[where f=sum_list], rule map_cong)
       (auto simp: grouped_ab_profiles[OF f(1)])
  have 2: "2 * length (filter is_both d) \<le> sum_list (map ab_profiles (filter is_both d))"
    by (rule sum_list_ge_twice)
       (auto simp: is_both_def ab_profiles_def Suc_le_eq neq_Nil_conv)
  from 1 2 show ?thesis
    by (simp add: build_result_def Let_def length_shuffle f)
qed

theorem both_profile_total_witness:
  "\<exists>st. classify 50 demo_profiles = Inr (demo_window, demo_dict, st)
      \<and> total_profiles_in_this_category (result_both (build_result id demo_window demo_dict st)) = 2
      \<and> count_emails (result_both (build_result id demo_window demo_dict st)) = 1
      \<and> sum_list (map (\<lambda>e. length (profiles_of G7S1 e demo_window)
                            + length (profiles_of G7S2 e demo_window)) (both st)) = 2"
proof -
  from demo_run obtain st where
    c: "classify 50 demo_profiles = Inr (demo_window, demo_dict, st)"
    and l: "both st = [JStr ''c@x.org'']" "profiles_in_both_category st = 2"
    by blast
  have "total_profiles_in_this_category (result_both (build_result id demo_window demo_dict st)) = 2"
    by (simp add: build_result_def Let_def l)
  with both_profile_total[OF c, of id] c l show ?thesis by auto
qed

section \<open>The samples\<close>

text \<open>
  C8: whatever the draws of the shuffle, each sample has at most 10 emails, all of them in
  its bucket's list: it is the first 10 elements of a permutation of that list.
\<close>

theorem samples_bounded:
  "length (sample (result_only_7s2 (build_result rnd users d st))) \<le> 10
   \<and> set (sample (result_only_7s2 (build_result rnd users d st))) \<subseteq> set (only_7s2 st)
   \<and> (\<exists>p. mset p = mset (only_7s2 st)
          \<and> sample (result_only_7s2 (build_result rnd users d st)) = take 10 p)
   \<and> length (sample (result_only_7s1 (build_result rnd users d st))) \<le> 10
   \<and> set (sample (result_only_7s1 (build_result rnd users d st))) \<subseteq> set (only_7s1 st)
   \<and> (\<exists>p. mset p = mset (only_7s1 st)
          \<and> sample (result_only_7s1 (build_result rnd users d st)) = take 10 p)
   \<and> length (sample (result_both (build_result rnd users d st))) \<le> 10
   \<and> set (sample (result_both (build_result rnd users d st))) \<subseteq> set (both st)
   \<and> (\<exists>p. mset p = mset (both st)
          \<and> sample (result_both (build_result rnd users d st)) = take 10 p)"
proof -
  have a: "length (take 10 (shuffle rnd p xs)) \<le> 10
        \<and> set (take 10 (shuffle rnd p xs)) \<subseteq> set xs
        \<and> (\<exists>q. mset q = mset xs \<and> take 10 (shuffle rnd p xs) = take 10 q)"
    for p and xs :: "json list"
    using set_take_subset[of 10 "shuffle rnd p xs"] mset_shuffle[of rnd p xs]
    by (auto simp: set_shuffle)
  show ?thesis
    using a[of 0 "only_7s2 st"] a[of "length (only_7s2 st) - 1" "only_7s1 st"]
      a[of "length (only_7s2 st) - 1 + (length (only_7s1 st) - 1)" "both st"]
    by (simp add: build_result_def Let_def)
qed

section \<open>No failure on sparse profiles\<close>




end
